theory Spec2Isabelle
  imports Main "HOL-Library.Sublist" "HOL-Library.Char_ord"
begin

section \<open>Strings\<close>

text \<open>
  A JavaScript string is modelled as a \<^typ>\<open>string\<close>: a list of code units, here the
  code units below 256. The string methods of the language that \<^verbatim>\<open>pick.ts\<close> calls
  are written out below, each as the executable function it computes.
\<close>

definition startsWith :: "string \<Rightarrow> string \<Rightarrow> bool" where
  "startsWith s p = prefix p s"

definition endsWith :: "string \<Rightarrow> string \<Rightarrow> bool" where
  "endsWith s p = suffix p s"

text \<open>
  White space as \<^verbatim>\<open>String.prototype.trim\<close> and the class \<^verbatim>\<open>\s\<close> read it: tab, line
  feed, vertical tab, form feed, carriage return, space and the no-break space.
\<close>

definition isWhiteSpace :: "char \<Rightarrow> bool" where
  "isWhiteSpace c = (c \<in> set [CHR 0x09, CHR 0x0A, CHR 0x0B, CHR 0x0C, CHR 0x0D, CHR 0x20, CHR 0xA0])"

text \<open>The characters that \<^verbatim>\<open>.\<close> of a regular expression does not match.\<close>

definition isLineTerminator :: "char \<Rightarrow> bool" where
  "isLineTerminator c = (c = CHR 0x0A \<or> c = CHR 0x0D)"

text \<open>The class \<^verbatim>\<open>[\w_]\<close>: letters, digits and the underscore.\<close>

definition isWordChar :: "char \<Rightarrow> bool" where
  "isWordChar c =
     ((CHR ''a'' \<le> c \<and> c \<le> CHR ''z'') \<or> (CHR ''A'' \<le> c \<and> c \<le> CHR ''Z'') \<or>
      (CHR ''0'' \<le> c \<and> c \<le> CHR ''9'') \<or> c = CHR ''_'')"

definition trim :: "string \<Rightarrow> string" where
  "trim s = rev (dropWhile isWhiteSpace (rev (dropWhile isWhiteSpace s)))"

text \<open>\<^verbatim>\<open>s.split(c)\<close> for a one-character separator: never the empty array.\<close>

fun splitChar :: "char \<Rightarrow> string \<Rightarrow> string list" where
  "splitChar c [] = [[]]"
| "splitChar c (x # xs) =
     (if x = c then [] # splitChar c xs
      else (case splitChar c xs of [] \<Rightarrow> [[x]] | l # ls \<Rightarrow> (x # l) # ls))"

text \<open>\<^verbatim>\<open>s.split(/\r?\n/)\<close>: a line feed, or a carriage return and the line feed after it,
  ends a line; a carriage return alone does not.\<close>

fun splitLines :: "string \<Rightarrow> string list" where
  "splitLines [] = [[]]"
| "splitLines (c # cs) =
     (if c = CHR 0x0A then [] # splitLines cs
      else if c = CHR 0x0D \<and> take 1 cs = [CHR 0x0A] then [] # splitLines (drop 1 cs)
      else (case splitLines cs of [] \<Rightarrow> [[c]] | l # ls \<Rightarrow> (c # l) # ls))"

text \<open>\<^verbatim>\<open>parts.join(sep)\<close>.\<close>

fun join :: "string \<Rightarrow> string list \<Rightarrow> string" where
  "join sep [] = []"
| "join sep [x] = x"
| "join sep (x # y # ys) = x @ sep @ join sep (y # ys)"

section \<open>Env-file parser\<close>

text \<open>
  \<^verbatim>\<open>s.replace(/^q(.*)q$/, '$1')\<close> for a quote character \<open>q\<close>: the pattern matches the whole
  string only, so the string must begin and end with \<open>q\<close> (two distinct positions) and
  the text between must hold no line terminator.
\<close>

definition stripQuotes :: "char \<Rightarrow> string \<Rightarrow> string" where
  "stripQuotes q s =
     (if 2 \<le> length s \<and> hd s = q \<and> last s = q \<and> \<not> list_ex isLineTerminator (butlast (tl s))
      then butlast (tl s) else s)"

text \<open>
  The body of the loop of \<^verbatim>\<open>parseEnvContent\<close>, for one line: blank lines and comment lines
  are skipped; otherwise the line is split at \<^verbatim>\<open>=\<close>, the first part is the key, the other
  parts joined again with \<^verbatim>\<open>=\<close> are the value, and the map is updated when the key part is
  not the empty string. The map of the source is a \<^verbatim>\<open>Map<string, string>\<close>, read only
  through \<^verbatim>\<open>has\<close> and \<^verbatim>\<open>get\<close>.
\<close>

definition parseEnvLine :: "(string \<rightharpoonup> string) \<Rightarrow> string \<Rightarrow> (string \<rightharpoonup> string)" where
  "parseEnvLine envMap line =
     (if trim line = [] \<or> startsWith (trim line) ''#'' then envMap
      else (case splitChar CHR ''='' line of
              [] \<Rightarrow> envMap
            | key # valueParts \<Rightarrow>
                if key \<noteq> [] then
                  envMap(trim key \<mapsto>
                    stripQuotes (CHR 0x27) (stripQuotes (CHR 0x22) (trim (join ''='' valueParts))))
                else envMap))"

definition parseEnvContent :: "string \<Rightarrow> (string \<rightharpoonup> string)" where
  "parseEnvContent envContent = foldl parseEnvLine Map.empty (splitLines envContent)"

section \<open>Environment substitution\<close>

text \<open>
  One match of \<^verbatim>\<open>/\$\{env:\s*([\w_]+)\}/\<close> at the start of a string: the variable name and
  the text after the match. The classes \<^verbatim>\<open>\s\<close> and \<^verbatim>\<open>[\w_]\<close> are disjoint and \<^verbatim>\<open>}\<close> is in
  neither, so the greedy match is the only one.
\<close>

definition matchEnvVar :: "string \<Rightarrow> (string \<times> string) option" where
  "matchEnvVar s =
     (if startsWith s ''${env:'' then
        (let t = dropWhile isWhiteSpace (drop 6 s);
             variableName = takeWhile isWordChar t;
             r = dropWhile isWordChar t
         in if variableName \<noteq> [] \<and> startsWith r ''}'' then Some (variableName, drop 1 r) else None)
      else None)"

lemma matchEnvVar_shorter: "matchEnvVar s = Some (n, r) \<Longrightarrow> length r < length s"
proof -
  assume m: "matchEnvVar s = Some (n, r)"
  let ?t = "dropWhile isWhiteSpace (drop 6 s)"
  from m have r: "r = drop 1 (dropWhile isWordChar ?t)" and p: "startsWith s ''${env:''"
    by (auto simp: matchEnvVar_def Let_def split: if_splits)
  have "length r \<le> length (dropWhile isWordChar ?t)" by (simp add: r)
  also have "\<dots> \<le> length ?t" by (rule length_dropWhile_le)
  also have "\<dots> \<le> length (drop 6 s)" by (rule length_dropWhile_le)
  also have "\<dots> < length s" using p by (auto simp: startsWith_def prefix_def)
  finally show ?thesis .
qed

text \<open>
  \<^verbatim>\<open>path.replace(/\$\{env:\s*([\w_]+)\}/g, f)\<close>: the string is read from the left; where the
  pattern matches, the match is replaced by what \<open>f\<close> returns for the variable name and
  reading goes on after the match; elsewhere the character is kept.
\<close>

function replaceEnvVars :: "(string \<Rightarrow> string) \<Rightarrow> string \<Rightarrow> string" where
  "replaceEnvVars f [] = []"
| "replaceEnvVars f (c # cs) =
     (case matchEnvVar (c # cs) of
        Some (variableName, rest) \<Rightarrow> f variableName @ replaceEnvVars f rest
      | None \<Rightarrow> c # replaceEnvVars f cs)"
  by pat_completeness auto
termination
  by (relation "measure (\<lambda>(f, s). length s)") (auto dest: matchEnvVar_shorter)

section \<open>Configuration\<close>

text \<open>
  \<^verbatim>\<open>Options\<close> and \<^verbatim>\<open>FullParam\<close>, field by field (of the dialog options that \<^verbatim>\<open>Options\<close>
  inherits, the title is the one the program reads). An optional field is an \<open>option\<close>.
  \<^verbatim>\<open>RPartial<FullParam>\<close> is the same shape with every field optional.
\<close>

record Options =
  Options_path :: "string option"
  Options_native :: bool
  Options_canSelectFiles :: bool
  Options_canSelectFolders :: bool
  Options_canChangeFolder :: bool
  Options_canSelectMany :: bool
  Options_filterRegExp :: "string option"
  Options_filterExt :: "string option"
  Options_defaultInputPath :: "string option"
  Options_defaultWorkspace :: "string option"
  Options_defaultEnvFile :: "string option"
  Options_title :: "string option"

record Output =
  Output_join :: string
  Output_fsPath :: bool
  Output_defaultPath :: "string option"
  Output_default :: "string option"

record FullParam =
  FullParam_options :: Options
  FullParam_output :: Output

record PartialOptions =
  PartialOptions_path :: "string option"
  PartialOptions_native :: "bool option"
  PartialOptions_canSelectFiles :: "bool option"
  PartialOptions_canSelectFolders :: "bool option"
  PartialOptions_canChangeFolder :: "bool option"
  PartialOptions_canSelectMany :: "bool option"
  PartialOptions_filterRegExp :: "string option"
  PartialOptions_filterExt :: "string option"
  PartialOptions_defaultInputPath :: "string option"
  PartialOptions_defaultWorkspace :: "string option"
  PartialOptions_defaultEnvFile :: "string option"
  PartialOptions_title :: "string option"

record PartialOutput =
  PartialOutput_join :: "string option"
  PartialOutput_fsPath :: "bool option"
  PartialOutput_defaultPath :: "string option"
  PartialOutput_default :: "string option"

datatype Param = ParamString string | ParamObject "PartialOptions option" "PartialOutput option"

definition defaultParam :: FullParam where
  "defaultParam =
     \<lparr>FullParam_options =
        \<lparr>Options_path = None, Options_native = False, Options_canSelectFiles = True,
         Options_canSelectFolders = False, Options_canChangeFolder = False,
         Options_canSelectMany = False, Options_filterRegExp = None, Options_filterExt = None,
         Options_defaultInputPath = None, Options_defaultWorkspace = None,
         Options_defaultEnvFile = None, Options_title = None\<rparr>,
      FullParam_output =
        \<lparr>Output_join = '','', Output_fsPath = True, Output_defaultPath = None,
         Output_default = None\<rparr>\<rparr>"

text \<open>One field of an object spread: the user's value where the user gave one.\<close>

definition spread :: "'a \<Rightarrow> 'a option \<Rightarrow> 'a" where
  "spread d v = (case v of None \<Rightarrow> d | Some x \<Rightarrow> x)"

definition spreadOptions :: "Options \<Rightarrow> PartialOptions option \<Rightarrow> Options" where
  "spreadOptions d po =
     (case po of
        None \<Rightarrow> d
      | Some u \<Rightarrow>
          \<lparr>Options_path = (case PartialOptions_path u of None \<Rightarrow> Options_path d | Some x \<Rightarrow> Some x),
           Options_native = spread (Options_native d) (PartialOptions_native u),
           Options_canSelectFiles = spread (Options_canSelectFiles d) (PartialOptions_canSelectFiles u),
           Options_canSelectFolders =
             spread (Options_canSelectFolders d) (PartialOptions_canSelectFolders u),
           Options_canChangeFolder =
             spread (Options_canChangeFolder d) (PartialOptions_canChangeFolder u),
           Options_canSelectMany = spread (Options_canSelectMany d) (PartialOptions_canSelectMany u),
           Options_filterRegExp =
             (case PartialOptions_filterRegExp u of None \<Rightarrow> Options_filterRegExp d | Some x \<Rightarrow> Some x),
           Options_filterExt =
             (case PartialOptions_filterExt u of None \<Rightarrow> Options_filterExt d | Some x \<Rightarrow> Some x),
           Options_defaultInputPath =
             (case PartialOptions_defaultInputPath u of
                None \<Rightarrow> Options_defaultInputPath d | Some x \<Rightarrow> Some x),
           Options_defaultWorkspace =
             (case PartialOptions_defaultWorkspace u of
                None \<Rightarrow> Options_defaultWorkspace d | Some x \<Rightarrow> Some x),
           Options_defaultEnvFile =
             (case PartialOptions_defaultEnvFile u of
                None \<Rightarrow> Options_defaultEnvFile d | Some x \<Rightarrow> Some x),
           Options_title = (case PartialOptions_title u of None \<Rightarrow> Options_title d | Some x \<Rightarrow> Some x)\<rparr>)"

definition spreadOutput :: "Output \<Rightarrow> PartialOutput option \<Rightarrow> Output" where
  "spreadOutput d po =
     (case po of
        None \<Rightarrow> d
      | Some u \<Rightarrow>
          \<lparr>Output_join = spread (Output_join d) (PartialOutput_join u),
           Output_fsPath = spread (Output_fsPath d) (PartialOutput_fsPath u),
           Output_defaultPath =
             (case PartialOutput_defaultPath u of None \<Rightarrow> Output_defaultPath d | Some x \<Rightarrow> Some x),
           Output_default =
             (case PartialOutput_default u of None \<Rightarrow> Output_default d | Some x \<Rightarrow> Some x)\<rparr>)"

text \<open>\<^verbatim>\<open>parseArgs(param)\<close>.\<close>

definition parseArgs :: "Param option \<Rightarrow> FullParam" where
  "parseArgs param =
     (case param of
        Some (ParamString s) \<Rightarrow>
          defaultParam\<lparr>FullParam_options := (FullParam_options defaultParam)\<lparr>Options_path := Some s\<rparr>\<rparr>
      | Some (ParamObject po pout) \<Rightarrow>
          \<lparr>FullParam_options = spreadOptions (FullParam_options defaultParam) po,
           FullParam_output = spreadOutput (FullParam_output defaultParam) pout\<rparr>
      | None \<Rightarrow>
          \<lparr>FullParam_options = spreadOptions (FullParam_options defaultParam) None,
           FullParam_output = spreadOutput (FullParam_output defaultParam) None\<rparr>)"

section \<open>Locations\<close>

text \<open>
  \<^verbatim>\<open>Uri\<close>, \<^verbatim>\<open>path.basename\<close> and the file system are the editor's and the runtime's, not
  this repository's. They are modelled here as their documentation gives them, on a host
  that is not Windows: a \<^verbatim>\<open>Uri\<close> is its five components; its constructor puts \<^verbatim>\<open>file\<close> for
  a missing scheme, puts a leading slash on the path of a \<^verbatim>\<open>file\<close>, \<^verbatim>\<open>http\<close> or \<^verbatim>\<open>https\<close>
  location and refuses a malformed location with an error.
\<close>

datatype error = UriError | FileSystemError | SyntaxError

record Uri =
  Uri_scheme :: string
  Uri_authority :: string
  Uri_path :: string
  Uri_query :: string
  Uri_fragment :: string

datatype FileType = Unknown | File | Directory | SymbolicLink | SymbolicLinkFile | SymbolicLinkDirectory

record WorkspaceFolder =
  WorkspaceFolder_uri :: Uri
  WorkspaceFolder_name :: string

text \<open>
  What the program reads from its host: the workspace folders (\<open>None\<close> is \<^verbatim>\<open>undefined\<close>, no
  folder open), the process environment, the content of a file and the entries of a
  directory (\<open>None\<close> where the read fails), the test of a regular expression against a
  string (\<open>None\<close> where the pattern does not compile), the decoding of percent-escapes
  that \<^verbatim>\<open>Uri.parse\<close> applies to each component, and the native dialog.

  The process environment is an object: \<^verbatim>\<open>process.env[name]\<close> is the value of the variable
  \<open>name\<close> where there is one (\<open>process_env\<close>), and otherwise what the object inherits
  under that name, if anything (\<^verbatim>\<open>toString\<close>, \<^verbatim>\<open>constructor\<close>, ...). The program uses the
  result as the replacement of a match, so an inherited property is recorded as the text
  that the replacement writes for it (\<open>process_env_inherited\<close>).
\<close>

record host =
  workspaceFolders :: "WorkspaceFolder list option"
  process_env :: "string \<rightharpoonup> string"
  process_env_inherited :: "string \<rightharpoonup> string"
  readFile :: "Uri \<Rightarrow> string option"
  readDirectory :: "Uri \<Rightarrow> (string \<times> FileType) list option"
  regExpTest :: "string \<Rightarrow> string \<Rightarrow> bool option"
  percentDecode :: "string \<Rightarrow> string"
  showOpenDialog :: "Options \<Rightarrow> Uri option \<Rightarrow> Uri list option"

definition schemePattern :: "string \<Rightarrow> bool" where
  "schemePattern s =
     (s \<noteq> [] \<and> isWordChar (hd s) \<and> list_all (\<lambda>c. isWordChar c \<or> c \<in> set ''+.-'') (tl s))"

definition schemeFix :: "string \<Rightarrow> string" where
  "schemeFix sch = (if sch = [] then ''file'' else sch)"

definition referenceResolution :: "string \<Rightarrow> string \<Rightarrow> string" where
  "referenceResolution sch p =
     (if sch = ''https'' \<or> sch = ''http'' \<or> sch = ''file'' then
        (if p = [] then ''/'' else if hd p \<noteq> CHR ''/'' then ''/'' @ p else p)
      else p)"

definition validateUri :: "Uri \<Rightarrow> error + Uri" where
  "validateUri u =
     (if Uri_scheme u \<noteq> [] \<and> \<not> schemePattern (Uri_scheme u) then Inl UriError
      else if Uri_path u \<noteq> [] then
        (if Uri_authority u \<noteq> [] then
           (if \<not> startsWith (Uri_path u) ''/'' then Inl UriError else Inr u)
         else
           (if startsWith (Uri_path u) ''//'' then Inl UriError else Inr u))
      else Inr u)"

definition Uri_new :: "string \<Rightarrow> string \<Rightarrow> string \<Rightarrow> string \<Rightarrow> string \<Rightarrow> error + Uri" where
  "Uri_new sch auth p q f =
     validateUri \<lparr>Uri_scheme = schemeFix sch, Uri_authority = auth,
       Uri_path = referenceResolution (schemeFix sch) p, Uri_query = q, Uri_fragment = f\<rparr>"

text \<open>
  \<^verbatim>\<open>Uri.parse(value)\<close>: the components are cut by the expression
  \<^verbatim>\<open>^(([^:/?#]+?):)?(\/\/([^/?#]*))?([^?#]*)(\?([^#]*))?(#(.*))?\<close>, decoded and given to the
  constructor.
\<close>

definition Uri_parse :: "host \<Rightarrow> string \<Rightarrow> error + Uri" where
  "Uri_parse h v =
     (let pre = takeWhile (\<lambda>c. c \<notin> set '':/?#'') v;
          post = dropWhile (\<lambda>c. c \<notin> set '':/?#'') v;
          sch = (if pre \<noteq> [] \<and> startsWith post '':'' then pre else []);
          r1 = (if pre \<noteq> [] \<and> startsWith post '':'' then drop 1 post else v);
          auth = (if startsWith r1 ''//'' then takeWhile (\<lambda>c. c \<notin> set ''/?#'') (drop 2 r1) else []);
          r2 = (if startsWith r1 ''//'' then dropWhile (\<lambda>c. c \<notin> set ''/?#'') (drop 2 r1) else r1);
          p = takeWhile (\<lambda>c. c \<notin> set ''?#'') r2;
          r3 = dropWhile (\<lambda>c. c \<notin> set ''?#'') r2;
          q = (if startsWith r3 ''?'' then takeWhile (\<lambda>c. c \<noteq> CHR ''#'') (drop 1 r3) else []);
          r4 = (if startsWith r3 ''?'' then dropWhile (\<lambda>c. c \<noteq> CHR ''#'') (drop 1 r3) else r3);
          f = (if startsWith r4 ''#'' then takeWhile (\<lambda>c. \<not> isLineTerminator c) (drop 1 r4) else [])
      in Uri_new sch (percentDecode h auth) (percentDecode h p) (percentDecode h q)
           (percentDecode h f))"

text \<open>
  \<^verbatim>\<open>path.posix.normalize\<close> and \<^verbatim>\<open>path.posix.join\<close>: the segments between slashes are read
  from the left onto a stack; an empty segment and \<^verbatim>\<open>.\<close> are dropped, \<^verbatim>\<open>..\<close> removes the
  segment before it (and is kept, on a relative path, where there is none to remove).
\<close>

fun normalizeSegments :: "bool \<Rightarrow> string list \<Rightarrow> string list \<Rightarrow> string list" where
  "normalizeSegments allowAboveRoot res [] = res"
| "normalizeSegments allowAboveRoot res (seg # segs) =
     normalizeSegments allowAboveRoot
       (if seg = [] \<or> seg = ''.'' then res
        else if seg = ''..'' then
          (if res \<noteq> [] \<and> last res \<noteq> ''..'' then butlast res
           else if allowAboveRoot then res @ [''..''] else res)
        else res @ [seg])
       segs"

definition normalizeString :: "string \<Rightarrow> bool \<Rightarrow> string" where
  "normalizeString p allowAboveRoot =
     join ''/'' (normalizeSegments allowAboveRoot [] (splitChar CHR ''/'' p))"

definition posix_normalize :: "string \<Rightarrow> string" where
  "posix_normalize p =
     (if p = [] then ''.''
      else
        (let isAbsolute = (hd p = CHR ''/'');
             trailingSeparator = (last p = CHR ''/'');
             res = normalizeString p (\<not> isAbsolute)
         in if res = [] then (if isAbsolute then ''/'' else if trailingSeparator then ''./'' else ''.'')
            else (if isAbsolute then ''/'' else []) @ res @ (if trailingSeparator then ''/'' else [])))"

definition posix_join :: "string list \<Rightarrow> string" where
  "posix_join args =
     (case filter (\<lambda>arg. arg \<noteq> []) args of
        [] \<Rightarrow> ''.''
      | joined \<Rightarrow> posix_normalize (join ''/'' joined))"

text \<open>\<^verbatim>\<open>basename(p)\<close>: the last segment, trailing slashes apart.\<close>

definition basename :: "string \<Rightarrow> string" where
  "basename p = rev (takeWhile (\<lambda>c. c \<noteq> CHR ''/'') (dropWhile (\<lambda>c. c = CHR ''/'') (rev p)))"

text \<open>\<^verbatim>\<open>uri.with({ path })\<close>: the same location when the path is the same, a new one built
  by the constructor otherwise.\<close>

definition Uri_with_path :: "Uri \<Rightarrow> string \<Rightarrow> error + Uri" where
  "Uri_with_path u p =
     (if p = Uri_path u then Inr u
      else Uri_new (Uri_scheme u) (Uri_authority u) p (Uri_query u) (Uri_fragment u))"

text \<open>\<^verbatim>\<open>Uri.joinPath(uri, fragment)\<close>: an error on a location with no path.\<close>

definition Uri_joinPath :: "Uri \<Rightarrow> string \<Rightarrow> error + Uri" where
  "Uri_joinPath u pathFragment =
     (if Uri_path u = [] then Inl UriError
      else Uri_with_path u (posix_join [Uri_path u, pathFragment]))"




section \<open>Root resolver\<close>

definition returnUri :: "error + Uri \<Rightarrow> error + Uri option" where
  "returnUri r = (case r of Inl e \<Rightarrow> Inl e | Inr u \<Rightarrow> Inr (Some u))"

text \<open>
  \<^verbatim>\<open>resolveEnvPath(filePath, defaultWorkspace)\<close>. Its \<^verbatim>\<open>filePath\<close> is a string: the branch
  for \<^verbatim>\<open>filePath == null\<close> stands after \<^verbatim>\<open>filePath.startsWith\<close> and is never taken.
  \<^verbatim>\<open>undefined\<close> is \<open>None\<close>; a thrown error is \<open>Inl\<close>.
\<close>

definition resolveEnvPath :: "host \<Rightarrow> string \<Rightarrow> string option \<Rightarrow> error + Uri option" where
  "resolveEnvPath h filePath defaultWorkspace =
     (if startsWith filePath ''/'' then returnUri (Uri_parse h filePath)
      else
        (case workspaceFolders h of
           Some [f] \<Rightarrow> returnUri (Uri_joinPath (WorkspaceFolder_uri f) filePath)
         | folders \<Rightarrow>
             (case Uri_parse h filePath of
                Inl e \<Rightarrow> Inl e
              | Inr parsed \<Rightarrow>
                  (let defaultPath = Uri_path parsed in
                   case (case folders of
                           None \<Rightarrow> None
                         | Some fs \<Rightarrow>
                             find (\<lambda>f. startsWith defaultPath
                                     (basename (Uri_path (WorkspaceFolder_uri f)) @ ''/'')) fs) of
                     Some workspaceFolder \<Rightarrow>
                       returnUri (Uri_joinPath (WorkspaceFolder_uri workspaceFolder) filePath)
                   | None \<Rightarrow>
                       (case defaultWorkspace of
                          None \<Rightarrow> Inr None
                        | Some w \<Rightarrow>
                            if w = [] then Inr None
                            else
                              (case (case folders of
                                       None \<Rightarrow> None
                                     | Some fs \<Rightarrow> find (\<lambda>f. WorkspaceFolder_name f = w) fs) of
                                 Some workspaceFolder \<Rightarrow>
                                   returnUri (Uri_joinPath (WorkspaceFolder_uri workspaceFolder) filePath)
                               | None \<Rightarrow> Inr None))))))"

text \<open>
  \<^verbatim>\<open>readWorkspaceFile(filePath, defaultWorkspace)\<close>: everything is inside \<^verbatim>\<open>try\<close>, so an error
  of the resolution, a location that is \<^verbatim>\<open>undefined\<close> and a failed read all give the empty
  string.
\<close>

definition readWorkspaceFile :: "host \<Rightarrow> string \<Rightarrow> string option \<Rightarrow> string" where
  "readWorkspaceFile h filePath defaultWorkspace =
     (case resolveEnvPath h filePath defaultWorkspace of
        Inl e \<Rightarrow> []
      | Inr None \<Rightarrow> []
      | Inr (Some u) \<Rightarrow> (case readFile h u of None \<Rightarrow> [] | Some content \<Rightarrow> content))"

text \<open>\<^verbatim>\<open>process.env[variableName]\<close>: \<open>None\<close> is \<^verbatim>\<open>undefined\<close>.\<close>

definition processEnvRead :: "host \<Rightarrow> string \<Rightarrow> string option" where
  "processEnvRead h variableName =
     (case process_env h variableName of
        Some v \<Rightarrow> Some v
      | None \<Rightarrow> process_env_inherited h variableName)"

text \<open>
  \<^verbatim>\<open>resolveEnvVariables(path, defaultEnvFile, defaultWorkspace)\<close>. The call of
  \<^verbatim>\<open>readWorkspaceFile\<close> passes \<^verbatim>\<open>defaultEnvFile\<close> twice, as the source does. The env map is
  a \<^verbatim>\<open>Map\<close>, whose \<^verbatim>\<open>has\<close> and \<^verbatim>\<open>get\<close> see its own keys only.
\<close>

definition resolveEnvVariables :: "host \<Rightarrow> string option \<Rightarrow> string option \<Rightarrow> string option \<Rightarrow> string" where
  "resolveEnvVariables h path defaultEnvFile defaultWorkspace =
     (case path of
        None \<Rightarrow> []
      | Some p \<Rightarrow>
          if p = [] then []
          else
            (let envMap =
                   (case defaultEnvFile of
                      None \<Rightarrow> Map.empty
                    | Some envFile \<Rightarrow>
                        if envFile = [] then Map.empty
                        else parseEnvContent (readWorkspaceFile h envFile (Some envFile)))
             in replaceEnvVars
                  (\<lambda>variableName.
                     case envMap variableName of
                       Some v \<Rightarrow> v
                     | None \<Rightarrow> (case processEnvRead h variableName of Some v \<Rightarrow> v | None \<Rightarrow> []))
                  p))"

text \<open>\<^verbatim>\<open>resolvePath(defaultWorkspace, defaultInputPath, defaultEnvFile, path)\<close>.\<close>

definition resolvePath ::
    "host \<Rightarrow> string option \<Rightarrow> string option \<Rightarrow> string option \<Rightarrow> string option \<Rightarrow> error + Uri option" where
  "resolvePath h defaultWorkspace defaultInputPath defaultEnvFile path =
     (case path of
        None \<Rightarrow>
          (case workspaceFolders h of
             Some (f # fs) \<Rightarrow> Inr (Some (WorkspaceFolder_uri f))
           | _ \<Rightarrow> Inr None)
      | Some p0 \<Rightarrow>
          (let p1 = resolveEnvVariables h (Some p0) defaultEnvFile defaultWorkspace in
           if startsWith p1 ''/'' then returnUri (Uri_parse h p1)
           else
             (let p = (case defaultInputPath of
                         None \<Rightarrow> p1
                       | Some d \<Rightarrow> if d \<noteq> [] \<and> p1 = [] then d else p1)
              in case workspaceFolders h of
                   Some [f] \<Rightarrow> returnUri (Uri_joinPath (WorkspaceFolder_uri f) p)
                 | folders \<Rightarrow>
                     (case Uri_parse h p of
                        Inl e \<Rightarrow> Inl e
                      | Inr parsed \<Rightarrow>
                          (let defaultPath = Uri_path parsed in
                           case (case folders of
                                   None \<Rightarrow> None
                                 | Some fs \<Rightarrow>
                                     find (\<lambda>f. startsWith defaultPath
                                             (basename (Uri_path (WorkspaceFolder_uri f)) @ ''/'')) fs) of
                             Some workspaceFolder \<Rightarrow>
                               returnUri (Uri_joinPath (WorkspaceFolder_uri workspaceFolder) p)
                           | None \<Rightarrow>
                               (case defaultWorkspace of
                                  None \<Rightarrow> Inr None
                                | Some w \<Rightarrow>
                                    if w = [] then Inr None
                                    else
                                      (case (case folders of
                                               None \<Rightarrow> None
                                             | Some fs \<Rightarrow> find (\<lambda>f. WorkspaceFolder_name f = w) fs) of
                                         Some workspaceFolder \<Rightarrow>
                                           returnUri (Uri_joinPath (WorkspaceFolder_uri workspaceFolder) p)
                                       | None \<Rightarrow> Inr None)))))))"

section \<open>Quick-select navigation\<close>

record Entry =
  Item_uri :: Uri
  Item_name :: string
  Item_type :: FileType

record Item = Entry +
  Item_label :: string

text \<open>What \<^verbatim>\<open>showQuickPick\<close> resolves to: \<^verbatim>\<open>undefined\<close> when the user cancels, one item, or
  an array of items when many can be picked.\<close>

datatype QuickPickResult = Cancelled | PickedOne Item | PickedMany "Item list"

text \<open>The result of an asynchronous function whose prompt may never be answered.\<close>

datatype 'a outcome = Pending | Returned 'a

datatype NavState = Browsing Uri | Terminal "Uri list option"

fun mapE :: "('a \<Rightarrow> error + 'b) \<Rightarrow> 'a list \<Rightarrow> error + 'b list" where
  "mapE f [] = Inr []"
| "mapE f (x # xs) =
     (case f x of
        Inl e \<Rightarrow> Inl e
      | Inr y \<Rightarrow> (case mapE f xs of Inl e \<Rightarrow> Inl e | Inr ys \<Rightarrow> Inr (y # ys)))"

fun filterE :: "('a \<Rightarrow> error + bool) \<Rightarrow> 'a list \<Rightarrow> error + 'a list" where
  "filterE f [] = Inr []"
| "filterE f (x # xs) =
     (case f x of
        Inl e \<Rightarrow> Inl e
      | Inr b \<Rightarrow> (case filterE f xs of Inl e \<Rightarrow> Inl e | Inr ys \<Rightarrow> Inr (if b then x # ys else ys)))"

text \<open>
  The list given to \<^verbatim>\<open>showQuickPick\<close>, from the entries of the directory \<open>dir\<close>: the
  pseudo-entries and the real entries, and the functions that the chain of \<^verbatim>\<open>map\<close> and
  \<^verbatim>\<open>filter\<close> calls applies, in its order. \<^verbatim>\<open>RegExp(regx)\<close> is built, and may throw, only
  for an entry that is not a directory.
\<close>

definition pseudoEntries :: "Options \<Rightarrow> (string \<times> FileType) list" where
  "pseudoEntries options =
     (if Options_canChangeFolder options then [(''..'', Directory)] else []) @
     (if Options_canSelectFolders options then [(''.'', Directory)] else [])"

definition toEntry :: "Uri \<Rightarrow> string \<times> FileType \<Rightarrow> error + Entry" where
  "toEntry dir child =
     (case Uri_joinPath dir (fst child) of
        Inl e \<Rightarrow> Inl e
      | Inr u \<Rightarrow> Inr \<lparr>Item_uri = u, Item_name = fst child, Item_type = snd child\<rparr>)"

definition regExpFilter :: "host \<Rightarrow> Options \<Rightarrow> Entry \<Rightarrow> error + bool" where
  "regExpFilter h options e =
     (if Item_type e = Directory then Inr True
      else (case Options_filterRegExp options of
              None \<Rightarrow> Inr True
            | Some regx \<Rightarrow>
                (case regExpTest h regx (Uri_path (Item_uri e)) of
                   None \<Rightarrow> Inl SyntaxError
                 | Some b \<Rightarrow> Inr b)))"

definition extFilter :: "Options \<Rightarrow> Entry \<Rightarrow> bool" where
  "extFilter options e =
     (Item_type e = Directory \<or>
      (case Options_filterExt options of
         None \<Rightarrow> True
       | Some ext \<Rightarrow> endsWith (Uri_path (Item_uri e)) ext))"

definition folderFilter :: "Options \<Rightarrow> Entry \<Rightarrow> bool" where
  "folderFilter options e =
     (Item_type e \<noteq> Directory \<or> Options_canSelectFolders options \<or> Options_canChangeFolder options)"

definition fileFilter :: "Options \<Rightarrow> Entry \<Rightarrow> bool" where
  "fileFilter options e = (Item_type e \<noteq> File \<or> Options_canSelectFiles options)"

definition withLabel :: "Entry \<Rightarrow> Item" where
  "withLabel e =
     \<lparr>Item_uri = Item_uri e, Item_name = Item_name e, Item_type = Item_type e,
      Item_label = (if Item_type e = Directory then Item_name e @ ''/'' else Item_name e)\<rparr>"

definition quickPickItems ::
    "host \<Rightarrow> Uri \<Rightarrow> Options \<Rightarrow> (string \<times> FileType) list \<Rightarrow> error + Item list" where
  "quickPickItems h dir options children =
     (case mapE (toEntry dir) (pseudoEntries options @ children) of
        Inl e \<Rightarrow> Inl e
      | Inr entries \<Rightarrow>
          (case filterE (regExpFilter h options) entries of
             Inl e \<Rightarrow> Inl e
           | Inr es \<Rightarrow>
               Inr (map withLabel
                      (filter (fileFilter options)
                         (filter (folderFilter options)
                            (filter (extFilter options) es))))))"

text \<open>Entering the browsing state: the directory joined with \<^verbatim>\<open>.\<close>, and the list shown
  for it.\<close>

definition quickPickList :: "host \<Rightarrow> Uri \<Rightarrow> Options \<Rightarrow> error + (Uri \<times> Item list)" where
  "quickPickList h dir0 options =
     (case Uri_joinPath dir0 ''.'' of
        Inl e \<Rightarrow> Inl e
      | Inr dir \<Rightarrow>
          (case readDirectory h dir of
             None \<Rightarrow> Inl FileSystemError
           | Some children \<Rightarrow>
               (case quickPickItems h dir options children of
                  Inl e \<Rightarrow> Inl e
                | Inr items \<Rightarrow> Inr (dir, items))))"

text \<open>\<^verbatim>\<open>Array.isArray(res) ? res : [res]\<close>, for an answer that is not \<^verbatim>\<open>undefined\<close>.\<close>

definition pickedItems :: "QuickPickResult \<Rightarrow> Item list" where
  "pickedItems res = (case res of PickedMany xs \<Rightarrow> xs | PickedOne x \<Rightarrow> [x] | Cancelled \<Rightarrow> [])"

text \<open>What follows the prompt's answer \<open>res\<close> in the directory \<open>dir\<close>.\<close>

definition quickPickNext :: "Options \<Rightarrow> Uri \<Rightarrow> QuickPickResult \<Rightarrow> NavState" where
  "quickPickNext options dir res =
     (if res = Cancelled then Terminal None
      else
        (let items = pickedItems res
         in if Options_canChangeFolder options \<and> length items = 1 \<and>
               Item_type (hd items) = Directory \<and>
               Uri_path (Item_uri (hd items)) \<noteq> Uri_path dir
            then Browsing (Item_uri (hd items))
            else Terminal (Some (map Item_uri items))))"

text \<open>
  \<^verbatim>\<open>pickWithQuick(dir, options)\<close>. The user is the list of the answers to the successive
  prompts, each a function of the list shown; where the answers end, the prompt stays
  open and the function has not returned.
\<close>

fun pickWithQuick ::
    "host \<Rightarrow> (Item list \<Rightarrow> QuickPickResult) list \<Rightarrow> Uri \<Rightarrow> Options \<Rightarrow> error + Uri list option outcome" where
  "pickWithQuick h [] dir0 options =
     (case quickPickList h dir0 options of
        Inl e \<Rightarrow> Inl e
      | Inr (dir, items) \<Rightarrow> Inr Pending)"
| "pickWithQuick h (answer # answers) dir0 options =
     (case quickPickList h dir0 options of
        Inl e \<Rightarrow> Inl e
      | Inr (dir, items) \<Rightarrow>
          (case quickPickNext options dir (answer items) of
             Browsing d \<Rightarrow> pickWithQuick h answers d options
           | Terminal r \<Rightarrow> Inr (Returned r)))"


section \<open>Output formatter and the pick operation\<close>





section \<open>Notions the properties are stated with\<close>

text \<open>An occurrence of the placeholder pattern somewhere in a string.\<close>

fun hasEnvVar :: "string \<Rightarrow> bool" where
  "hasEnvVar [] = False"
| "hasEnvVar (c # cs) = (matchEnvVar (c # cs) \<noteq> None \<or> hasEnvVar cs)"

text \<open>
  A path written as its pieces: literal text without \<^verbatim>\<open>$\<close>, and placeholders, each with the
  white space after its colon and its variable name. \<open>renderPieces\<close> writes the path;
  \<open>substitutePieces\<close> writes it with every placeholder replaced by the value of its name.
\<close>

datatype pathPiece = Literal string | Placeholder string string

fun renderPieces :: "pathPiece list \<Rightarrow> string" where
  "renderPieces [] = []"
| "renderPieces (Literal s # ps) = s @ renderPieces ps"
| "renderPieces (Placeholder ws name # ps) = ''${env:'' @ ws @ name @ ''}'' @ renderPieces ps"

fun substitutePieces :: "(string \<Rightarrow> string) \<Rightarrow> pathPiece list \<Rightarrow> string" where
  "substitutePieces f [] = []"
| "substitutePieces f (Literal s # ps) = s @ substitutePieces f ps"
| "substitutePieces f (Placeholder ws name # ps) = f name @ substitutePieces f ps"

fun wellFormedPiece :: "pathPiece \<Rightarrow> bool" where
  "wellFormedPiece (Literal s) = (CHR ''$'' \<notin> set s)"
| "wellFormedPiece (Placeholder ws name) =
     (list_all isWhiteSpace ws \<and> name \<noteq> [] \<and> list_all isWordChar name)"

text \<open>
  The specification's reading of the quote rule, for comparison with the source's two
  successive replacements: one layer of surrounding quotes, double or single, is removed.
\<close>

definition stripOneQuoteLayer :: "string \<Rightarrow> string" where
  "stripOneQuoteLayer s =
     (if stripQuotes (CHR 0x22) s \<noteq> s then stripQuotes (CHR 0x22) s else stripQuotes (CHR 0x27) s)"

text \<open>Concrete hosts, for the instances below: two workspace folders \<^verbatim>\<open>/a\<close> (named
  \<^verbatim>\<open>ws1\<close>) and \<^verbatim>\<open>/b\<close> (named \<^verbatim>\<open>ws2\<close>), the variable \<^verbatim>\<open>A=x\<close> in the process environment,
  one readable file \<^verbatim>\<open>/a/.env\<close>, the directory \<^verbatim>\<open>/a\<close> with two files and the directory
  \<^verbatim>\<open>sub\<close>, which holds one file; and the same host with the first folder alone and no
  readable file.\<close>

text \<open>The properties that the environment object of the example hosts inherits, each
  with the text that a replacement writes for it.\<close>

definition objectPrototypeText :: "string \<rightharpoonup> string" where
  "objectPrototypeText =
     map_of
       [(''constructor'', ''function Object() { [native code] }''),
        (''toString'', ''function toString() { [native code] }''),
        (''toLocaleString'', ''function toLocaleString() { [native code] }''),
        (''valueOf'', ''function valueOf() { [native code] }''),
        (''hasOwnProperty'', ''function hasOwnProperty() { [native code] }''),
        (''isPrototypeOf'', ''function isPrototypeOf() { [native code] }''),
        (''propertyIsEnumerable'', ''function propertyIsEnumerable() { [native code] }''),
        (''__defineGetter__'', ''function __defineGetter__() { [native code] }''),
        (''__defineSetter__'', ''function __defineSetter__() { [native code] }''),
        (''__lookupGetter__'', ''function __lookupGetter__() { [native code] }''),
        (''__lookupSetter__'', ''function __lookupSetter__() { [native code] }''),
        (''__proto__'', ''[object Object]'')]"

definition fileUri :: "string \<Rightarrow> Uri" where
  "fileUri p =
     \<lparr>Uri_scheme = ''file'', Uri_authority = [], Uri_path = p, Uri_query = [], Uri_fragment = []\<rparr>"

definition exampleHost :: host where
  "exampleHost =
     \<lparr>workspaceFolders =
        Some [\<lparr>WorkspaceFolder_uri = fileUri ''/a'', WorkspaceFolder_name = ''ws1''\<rparr>,
              \<lparr>WorkspaceFolder_uri = fileUri ''/b'', WorkspaceFolder_name = ''ws2''\<rparr>],
      process_env = [''A'' \<mapsto> ''x''],
      process_env_inherited = objectPrototypeText,
      readFile = (\<lambda>u. if u = fileUri ''/a/.env'' then Some ''A=fromfile'' else None),
      readDirectory =
        (\<lambda>u. if u = fileUri ''/a''
              then Some [(''x.env'', File), (''y.txt'', File), (''sub'', Directory)]
              else if u = fileUri ''/a/sub'' then Some [(''z.env'', File)]
              else None),
      regExpTest = (\<lambda>regx s. None),
      percentDecode = (\<lambda>s. s),
      showOpenDialog = (\<lambda>options dir. None)\<rparr>"

definition singleRootHost :: host where
  "singleRootHost =
     exampleHost\<lparr>workspaceFolders :=
                   Some [\<lparr>WorkspaceFolder_uri = fileUri ''/a'', WorkspaceFolder_name = ''ws1''\<rparr>],
                 readFile := (\<lambda>u. None)\<rparr>"

text \<open>A location as the constructor of \<^verbatim>\<open>Uri\<close> returns it: every location the editor
  hands out is one.\<close>

definition isUri :: "Uri \<Rightarrow> bool" where
  "isUri u =
     (Uri_new (Uri_scheme u) (Uri_authority u) (Uri_path u) (Uri_query u) (Uri_fragment u) = Inr u)"

text \<open>The segment lists that \<^verbatim>\<open>normalizeString\<close> produces: no empty segment, no \<^verbatim>\<open>.\<close>, no
  slash inside a segment, and \<^verbatim>\<open>..\<close> only at the front of a relative path.\<close>

definition normalSegments :: "bool \<Rightarrow> string list \<Rightarrow> bool" where
  "normalSegments allowAboveRoot segs =
     (list_all (\<lambda>x. x \<noteq> [] \<and> x \<noteq> ''.'' \<and> CHR ''/'' \<notin> set x) segs \<and>
      (allowAboveRoot \<or> ''..'' \<notin> set segs) \<and>
      ''..'' \<notin> set (dropWhile (\<lambda>x. x = ''..'') segs))"

text \<open>Configurations and items for the instances: the scenario's configuration (no
  folder selection, no folder change, nothing else set), a configuration with a default
  output text, options that allow folders to be selected and changed, and the item the
  list shows for an entry.\<close>

definition scenarioArgs :: Param where
  "scenarioArgs =
     ParamObject
       (Some \<lparr>PartialOptions_path = Some ''/a'', PartialOptions_native = None,
              PartialOptions_canSelectFiles = None, PartialOptions_canSelectFolders = Some False,
              PartialOptions_canChangeFolder = Some False, PartialOptions_canSelectMany = None,
              PartialOptions_filterRegExp = None, PartialOptions_filterExt = None,
              PartialOptions_defaultInputPath = None, PartialOptions_defaultWorkspace = None,
              PartialOptions_defaultEnvFile = None, PartialOptions_title = None\<rparr>)
       None"


definition browseOptions :: Options where
  "browseOptions =
     (FullParam_options defaultParam)\<lparr>Options_canSelectFolders := True,
                                     Options_canChangeFolder := True\<rparr>"

definition entryItem :: "string \<Rightarrow> string \<Rightarrow> FileType \<Rightarrow> Item" where
  "entryItem p name type =
     \<lparr>Item_uri = fileUri p, Item_name = name, Item_type = type,
      Item_label = (if type = Directory then name @ ''/'' else name)\<rparr>"

text \<open>
  A user of the quick-pick prompt who picks, as the one item, the first item of the list
  shown that has the name \<open>n\<close>, and cancels when the list has no such item.
\<close>

definition pickNamed :: "string \<Rightarrow> Item list \<Rightarrow> QuickPickResult" where
  "pickNamed n items =
     (case find (\<lambda>item. Item_name item = n) items of
        Some item \<Rightarrow> PickedOne item
      | None \<Rightarrow> Cancelled)"

section \<open>Properties of the env-file parser\<close>

lemma splitChar_no_sep: "c \<notin> set s \<Longrightarrow> splitChar c s = [s]"
  by (induction s) auto

lemma splitChar_not_Nil: "splitChar c s \<noteq> []"
  by (induction s) (auto split: list.splits)

lemma splitChar_key: "c \<notin> set k \<Longrightarrow> splitChar c (k @ c # v) = k # splitChar c v"
  by (induction k) (auto split: list.splits)

lemma join_splitChar: "join [c] (splitChar c s) = s"
proof (induction s)
  case Nil
  show ?case by simp
next
  case (Cons x xs)
  show ?case
  proof (cases "x = c")
    case True
    then show ?thesis using Cons splitChar_not_Nil[of c xs]
      by (cases "splitChar c xs") auto
  next
    case False
    then show ?thesis using Cons splitChar_not_Nil[of c xs]
      by (cases "splitChar c xs"; cases "tl (splitChar c xs)") auto
  qed
qed

lemma stripQuotes_Nil: "stripQuotes q [] = []"
  by (simp add: stripQuotes_def)

lemma in_set_dropWhile: "x \<in> set s \<Longrightarrow> \<not> P x \<Longrightarrow> x \<in> set (dropWhile P s)"
  by (induction s) auto

lemma trim_has_nonspace: "x \<in> set s \<Longrightarrow> \<not> isWhiteSpace x \<Longrightarrow> trim s \<noteq> []"
proof -
  assume a: "x \<in> set s" "\<not> isWhiteSpace x"
  then have "x \<in> set (dropWhile isWhiteSpace s)" by (rule in_set_dropWhile)
  then have "x \<in> set (rev (dropWhile isWhiteSpace s))" by simp
  then have "x \<in> set (dropWhile isWhiteSpace (rev (dropWhile isWhiteSpace s)))"
    using a(2) by (rule in_set_dropWhile)
  then have "dropWhile isWhiteSpace (rev (dropWhile isWhiteSpace s)) \<noteq> []"
    by (metis empty_iff empty_set)
  then show ?thesis by (simp only: trim_def rev_is_Nil_conv not_False_eq_True)
qed

text \<open>A line without \<^verbatim>\<open>=\<close> is its own key part, and its value part is empty.\<close>

lemma parseEnvLine_no_eq:
  assumes "CHR ''='' \<notin> set line"
  shows "parseEnvLine m line =
    (if trim line = [] \<or> startsWith (trim line) ''#'' then m else m(trim line \<mapsto> []))"
proof -
  have "trim line \<noteq> [] \<Longrightarrow> line \<noteq> []" by (auto simp: trim_def)
  then show ?thesis using assms
    by (auto simp: parseEnvLine_def splitChar_no_sep stripQuotes_Nil trim_def)
qed

text \<open>A line binds at most one key and leaves every other binding as it was.\<close>

lemma parseEnvLine_override:
  "parseEnvLine m l k = (case parseEnvLine Map.empty l k of Some v \<Rightarrow> Some v | None \<Rightarrow> m k)"
  by (auto simp: parseEnvLine_def split: list.splits)

lemma foldl_parseEnvLine_keep:
  "\<forall>l \<in> set ls. parseEnvLine Map.empty l k = None \<Longrightarrow> foldl parseEnvLine m ls k = m k"
proof (induction ls arbitrary: m)
  case Nil
  show ?case by simp
next
  case (Cons l ls)
  have "foldl parseEnvLine m (l # ls) k = parseEnvLine m l k" using Cons by simp
  also have "\<dots> = m k" using Cons.prems by (subst parseEnvLine_override) simp
  finally show ?case .
qed

lemma foldl_parseEnvLine_dom: "k \<in> dom m \<Longrightarrow> k \<in> dom (foldl parseEnvLine m ls)"
proof (induction ls arbitrary: m)
  case Nil
  then show ?case by simp
next
  case (Cons l ls)
  have "k \<in> dom (parseEnvLine m l)" using Cons.prems
    by (subst (asm) dom_def, subst dom_def)
       (auto simp: parseEnvLine_override[of m l k] split: option.splits)
  then show ?case using Cons.IH by simp
qed

lemma parseEnvLine_key_value:
  assumes "CHR ''='' \<notin> set key" "key \<noteq> []" "\<not> startsWith (trim (key @ ''='' @ v)) ''#''"
  shows "parseEnvLine m (key @ ''='' @ v) =
    m(trim key \<mapsto> stripQuotes (CHR 0x27) (stripQuotes (CHR 0x22) (trim v)))"
proof -
  have "trim (key @ ''='' @ v) \<noteq> []"
    by (rule trim_has_nonspace[of "CHR ''=''"]) (auto simp: isWhiteSpace_def)
  then show ?thesis using assms
    by (simp add: parseEnvLine_def splitChar_key join_splitChar)
qed

lemma parseEnvContent_Nil: "parseEnvContent [] = Map.empty"
  by (simp add: parseEnvContent_def parseEnvLine_def trim_def)

text \<open>
  Claim C3, as amended. The claim says that a line without \<^verbatim>\<open>=\<close> contributes no key. In
  the source such a line is the only part of its split, so it is the key part: a line
  without \<^verbatim>\<open>=\<close> leaves the map unchanged only when it is blank or a comment; any other
  line without \<^verbatim>\<open>=\<close> binds its trimmed text to the empty string, and that key is in the
  map parsed from every content that holds the line.
\<close>

theorem parseEnvContent_line_without_eq:
  assumes "line \<in> set (splitLines envContent)" and "CHR ''='' \<notin> set line"
  shows "(trim line = [] \<or> startsWith (trim line) ''#'' \<longrightarrow> parseEnvLine m line = m) \<and>
         (trim line \<noteq> [] \<and> \<not> startsWith (trim line) ''#'' \<longrightarrow>
            parseEnvLine m line = m(trim line \<mapsto> []) \<and>
            trim line \<in> dom (parseEnvContent envContent))"
proof (intro conjI impI)
  assume "trim line = [] \<or> startsWith (trim line) ''#''"
  then show "parseEnvLine m line = m" using assms(2) by (simp add: parseEnvLine_no_eq)
next
  assume "trim line \<noteq> [] \<and> \<not> startsWith (trim line) ''#''"
  then show "parseEnvLine m line = m(trim line \<mapsto> [])"
    using assms(2) by (simp add: parseEnvLine_no_eq)
next
  assume a: "trim line \<noteq> [] \<and> \<not> startsWith (trim line) ''#''"
  from assms(1) obtain pre post where sp: "splitLines envContent = pre @ line # post"
    by (auto simp: in_set_conv_decomp)
  have "trim line \<in> dom (parseEnvLine (foldl parseEnvLine Map.empty pre) line)"
    using a assms(2) by (simp add: parseEnvLine_no_eq)
  then have "trim line \<in>
      dom (foldl parseEnvLine (parseEnvLine (foldl parseEnvLine Map.empty pre) line) post)"
    by (rule foldl_parseEnvLine_dom)
  then show "trim line \<in> dom (parseEnvContent envContent)"
    by (simp add: parseEnvContent_def sp)
qed

theorem parseEnvContent_line_without_eq_witness:
  "'' PORT '' \<in> set (splitLines (''A=1'' @ [CHR 0x0A] @ '' PORT '')) \<and>
   CHR ''='' \<notin> set '' PORT '' \<and>
   parseEnvLine Map.empty '' PORT '' = [''PORT'' \<mapsto> []] \<and>
   ''PORT'' \<in> dom (parseEnvContent (''A=1'' @ [CHR 0x0A] @ '' PORT ''))"
proof -
  have h1: "'' PORT '' \<in> set (splitLines (''A=1'' @ [CHR 0x0A] @ '' PORT ''))" by code_simp
  have h2: "CHR ''='' \<notin> set '' PORT ''" by simp
  have t: "trim '' PORT '' = ''PORT''" by code_simp
  have n: "\<not> startsWith ''PORT'' ''#''" by code_simp
  from parseEnvContent_line_without_eq [OF h1 h2, of Map.empty] t n
  have "parseEnvLine Map.empty '' PORT '' = [''PORT'' \<mapsto> []] \<and>
        ''PORT'' \<in> dom (parseEnvContent (''A=1'' @ [CHR 0x0A] @ '' PORT ''))"
    by simp
  with h1 h2 show ?thesis by blast
qed

theorem parseEnvContent_bare_line_defines_key:
  "CHR ''='' \<notin> set ''FOO'' \<and> ''FOO'' \<in> set (splitLines ''FOO'') \<and>
   parseEnvContent ''FOO'' ''FOO'' = Some []"
  by code_simp

text \<open>
  Claim C5, as amended. The claim says that one layer of matching quotes is removed. The
  source applies two replacements in a row, so a value in double quotes around single
  quotes loses both layers. What holds: when the lines of the content are \<open>pre\<close>, then a
  line \<open>key=v\<close> (the key part not empty and free of \<^verbatim>\<open>=\<close>, the line not a comment), then
  \<open>post\<close>, and no line of \<open>post\<close> binds the trimmed key, the lookup of the trimmed key
  returns \<open>v\<close> trimmed, with a surrounding pair of double quotes removed and then a
  surrounding pair of single quotes removed. Lines of \<open>pre\<close> that bind the same key do not
  matter: the later line wins.
\<close>

theorem parseEnvContent_lookup:
  assumes "splitLines envContent = pre @ [key @ ''='' @ v] @ post"
    and "CHR ''='' \<notin> set key" and "key \<noteq> []"
    and "\<not> startsWith (trim (key @ ''='' @ v)) ''#''"
    and "\<forall>l \<in> set post. parseEnvLine Map.empty l (trim key) = None"
  shows "parseEnvContent envContent (trim key) =
    Some (stripQuotes (CHR 0x27) (stripQuotes (CHR 0x22) (trim v)))"
proof -
  let ?m = "foldl parseEnvLine Map.empty pre"
  have "parseEnvContent envContent (trim key) =
        foldl parseEnvLine (parseEnvLine ?m (key @ ''='' @ v)) post (trim key)"
    by (simp add: parseEnvContent_def assms(1))
  also have "\<dots> = parseEnvLine ?m (key @ ''='' @ v) (trim key)"
    by (rule foldl_parseEnvLine_keep) (rule assms(5))
  also have "\<dots> = Some (stripQuotes (CHR 0x27) (stripQuotes (CHR 0x22) (trim v)))"
    by (subst parseEnvLine_key_value[OF assms(2,3,4)]) simp
  finally show ?thesis .
qed

theorem parseEnvContent_lookup_witness:
  "parseEnvContent
     (''A=1'' @ [CHR 0x0D, CHR 0x0A] @ ''A = '' @ [CHR 0x27] @ ''two'' @ [CHR 0x27] @ '' '' @
      [CHR 0x0A] @ ''B=x'')
     ''A'' =
   Some ''two''"
proof -
  let ?v = "'' '' @ [CHR 0x27] @ ''two'' @ [CHR 0x27] @ '' ''"
  have h1: "splitLines
      (''A=1'' @ [CHR 0x0D, CHR 0x0A] @ ''A = '' @ [CHR 0x27] @ ''two'' @ [CHR 0x27] @ '' '' @
       [CHR 0x0A] @ ''B=x'') =
      [''A=1''] @ [''A '' @ ''='' @ ?v] @ [''B=x'']"
    by code_simp
  have h2: "CHR ''='' \<notin> set ''A ''" by simp
  have h3: "''A '' \<noteq> []" by simp
  have h4: "\<not> startsWith (trim (''A '' @ ''='' @ ?v)) ''#''" by code_simp
  have h5: "\<forall>l \<in> set [''B=x'']. parseEnvLine Map.empty l (trim ''A '') = None" by code_simp
  have t: "trim ''A '' = ''A''" by code_simp
  have v: "stripQuotes (CHR 0x27) (stripQuotes (CHR 0x22) (trim ?v)) = ''two''" by code_simp
  from parseEnvContent_lookup [OF h1 h2 h3 h4 h5] show ?thesis by (simp only: t v)
qed

theorem parseEnvContent_strips_two_layers:
  "parseEnvContent (''K='' @ [CHR 0x22, CHR 0x27] @ ''a'' @ [CHR 0x27, CHR 0x22]) ''K'' = Some ''a'' \<and>
   stripOneQuoteLayer (trim ([CHR 0x22, CHR 0x27] @ ''a'' @ [CHR 0x27, CHR 0x22])) =
     [CHR 0x27] @ ''a'' @ [CHR 0x27]"
  by code_simp

section \<open>Properties of the environment substitution\<close>

lemma replaceEnvVars_id: "\<not> hasEnvVar s \<Longrightarrow> replaceEnvVars f s = s"
  by (induction s) (auto split: option.splits)

lemma replaceEnvVars_slash: "startsWith p ''/'' \<Longrightarrow> startsWith (replaceEnvVars f p) ''/''"
  by (cases p) (auto simp: startsWith_def matchEnvVar_def)

text \<open>
  Claim C9. On a path with no occurrence of the placeholder pattern, the substitution
  returns the path itself, whatever the env file, the workspace name and the host (its
  files and its process environment) are.
\<close>

theorem resolveEnvVariables_identity:
  "\<not> hasEnvVar p \<Longrightarrow> resolveEnvVariables h (Some p) defaultEnvFile defaultWorkspace = p"
  by (simp add: resolveEnvVariables_def replaceEnvVars_id Let_def)

theorem resolveEnvVariables_identity_witness:
  "\<not> hasEnvVar ''src/${x}'' \<and>
   resolveEnvVariables exampleHost (Some ''src/${x}'') (Some ''.env'') None = ''src/${x}''"
proof -
  have h: "\<not> hasEnvVar ''src/${x}''" by code_simp
  from resolveEnvVariables_identity [OF h, of exampleHost "Some ''.env''" None] h
  show ?thesis by blast
qed

lemma replaceEnvVars_literal:
  "CHR ''$'' \<notin> set s \<Longrightarrow> replaceEnvVars f (s @ t) = s @ replaceEnvVars f t"
  by (induction s) (auto simp: matchEnvVar_def startsWith_def)

lemma takeWhile_word: "list_all isWordChar name \<Longrightarrow> takeWhile isWordChar (name @ CHR ''}'' # t) = name"
  by (induction name) (auto simp: isWordChar_def)

lemma dropWhile_word:
  "list_all isWordChar name \<Longrightarrow> dropWhile isWordChar (name @ CHR ''}'' # t) = CHR ''}'' # t"
  by (induction name) (auto simp: isWordChar_def)

lemma word_not_space: "isWordChar c \<Longrightarrow> \<not> isWhiteSpace c"
  by (auto simp: isWordChar_def isWhiteSpace_def)

lemma dropWhile_space:
  assumes "list_all isWhiteSpace ws" and "name \<noteq> []" and "list_all isWordChar name"
  shows "dropWhile isWhiteSpace (ws @ name @ t) = name @ t"
proof -
  from assms(2,3) have "\<not> isWhiteSpace (hd name)"
    by (cases name) (auto dest: word_not_space)
  then have "dropWhile isWhiteSpace (name @ t) = name @ t" using assms(2) by (cases name) auto
  then show ?thesis using assms(1) by (induction ws) auto
qed

lemma matchEnvVar_placeholder:
  assumes "list_all isWhiteSpace ws" and "name \<noteq> []" and "list_all isWordChar name"
  shows "matchEnvVar (''${env:'' @ ws @ name @ ''}'' @ t) = Some (name, t)"
proof -
  have d: "dropWhile isWhiteSpace (ws @ name @ CHR ''}'' # t) = name @ CHR ''}'' # t"
    using dropWhile_space[OF assms, of "CHR ''}'' # t"] by simp
  show ?thesis
    using assms(2)
    by (simp add: matchEnvVar_def startsWith_def d takeWhile_word[OF assms(3)]
        dropWhile_word[OF assms(3)])
qed

lemma replaceEnvVars_placeholder:
  assumes "list_all isWhiteSpace ws" and "name \<noteq> []" and "list_all isWordChar name"
  shows "replaceEnvVars f (''${env:'' @ ws @ name @ ''}'' @ t) = f name @ replaceEnvVars f t"
proof -
  have "replaceEnvVars f (CHR ''$'' # (''{env:'' @ ws @ name @ ''}'' @ t)) =
        f name @ replaceEnvVars f t"
    using matchEnvVar_placeholder[OF assms, of t] by (subst replaceEnvVars.simps) simp
  then show ?thesis by simp
qed

lemma replaceEnvVars_pieces:
  "list_all wellFormedPiece ps \<Longrightarrow> replaceEnvVars f (renderPieces ps) = substitutePieces f ps"
proof (induction ps)
  case Nil
  show ?case by simp
next
  case (Cons x ps)
  show ?case
  proof (cases x)
    case (Literal s)
    then show ?thesis using Cons by (simp add: replaceEnvVars_literal)
  next
    case (Placeholder ws name)
    then have "replaceEnvVars f (renderPieces (x # ps)) =
        replaceEnvVars f (''${env:'' @ ws @ name @ ''}'' @ renderPieces ps)" by simp
    also have "\<dots> = f name @ replaceEnvVars f (renderPieces ps)"
      using Cons.prems Placeholder by (intro replaceEnvVars_placeholder) simp_all
    finally show ?thesis using Cons Placeholder by simp
  qed
qed

lemma resolveEnvVariables_unreadable:
  assumes "readWorkspaceFile h envFile (Some envFile) = []"
  shows "resolveEnvVariables h (Some p) (Some envFile) defaultWorkspace =
           replaceEnvVars
             (\<lambda>variableName.
                case process_env h variableName of
                  Some v \<Rightarrow> v
                | None \<Rightarrow> (case process_env_inherited h variableName of
                             Some t \<Rightarrow> t | None \<Rightarrow> []))
             p"
proof -
  have e: "(\<lambda>variableName. case processEnvRead h variableName of Some v \<Rightarrow> v | None \<Rightarrow> []) =
           (\<lambda>variableName.
                case process_env h variableName of
                  Some v \<Rightarrow> v
                | None \<Rightarrow> (case process_env_inherited h variableName of
                             Some t \<Rightarrow> t | None \<Rightarrow> []))"
    by (rule ext) (simp add: processEnvRead_def split: option.splits)
  show ?thesis
    by (cases "p = []") (simp_all add: assms resolveEnvVariables_def parseEnvContent_Nil e)
qed

text \<open>
  Claim C4, as amended. The claim says that after a failed read every placeholder gets
  the empty value. The source falls back on \<^verbatim>\<open>process.env[variableName]\<close> for every name
  the env file does not bind, so what holds is: when the env file cannot be read, the
  read gives the empty string, and the substitution replaces each placeholder by what
  \<^verbatim>\<open>process.env\<close> gives for its name: the value of the variable; where there is no such
  variable, the text of what the environment object inherits under that name; and the
  empty string only where the read is \<^verbatim>\<open>undefined\<close>. The last part of the statement says
  so for a path given by its pieces, with no reference to the replacement function.
\<close>

theorem resolveEnvVariables_unreadable_envFile:
  assumes "\<forall>u. resolveEnvPath h envFile (Some envFile) = Inr (Some u) \<longrightarrow> readFile h u = None"
  shows "readWorkspaceFile h envFile (Some envFile) = [] \<and>
         resolveEnvVariables h (Some p) (Some envFile) defaultWorkspace =
           replaceEnvVars
             (\<lambda>variableName.
                case process_env h variableName of
                  Some v \<Rightarrow> v
                | None \<Rightarrow> (case process_env_inherited h variableName of
                             Some t \<Rightarrow> t | None \<Rightarrow> []))
             p \<and>
         (list_all wellFormedPiece pieces \<longrightarrow>
            resolveEnvVariables h (Some (renderPieces pieces)) (Some envFile) defaultWorkspace =
              substitutePieces
                (\<lambda>variableName.
                   case process_env h variableName of
                     Some v \<Rightarrow> v
                   | None \<Rightarrow> (case process_env_inherited h variableName of
                                Some t \<Rightarrow> t | None \<Rightarrow> []))
                pieces)"
proof -
  have r: "readWorkspaceFile h envFile (Some envFile) = []"
    using assms by (auto simp: readWorkspaceFile_def split: sum.splits option.splits)
  note a = resolveEnvVariables_unreadable[OF r]
  have b: "resolveEnvVariables h (Some (renderPieces pieces)) (Some envFile) defaultWorkspace =
              substitutePieces
                (\<lambda>variableName.
                   case process_env h variableName of
                     Some v \<Rightarrow> v
                   | None \<Rightarrow> (case process_env_inherited h variableName of
                                Some t \<Rightarrow> t | None \<Rightarrow> []))
                pieces"
    if "list_all wellFormedPiece pieces"
    by (simp only: a replaceEnvVars_pieces[OF that])
  show ?thesis by (intro conjI impI) (rule r, rule a, erule b)
qed

theorem resolveEnvVariables_unreadable_envFile_witness:
  "readWorkspaceFile singleRootHost ''.env'' (Some ''.env'') = [] \<and>
   resolveEnvVariables singleRootHost (Some ''/r/${env: A}/${env:B}/${env:toString}'')
     (Some ''.env'') None =
     ''/r/x//function toString() { [native code] }''"
proof -
  let ?f = "\<lambda>variableName.
              case process_env singleRootHost variableName of
                Some v \<Rightarrow> v
              | None \<Rightarrow> (case process_env_inherited singleRootHost variableName of
                           Some t \<Rightarrow> t | None \<Rightarrow> [])"
  let ?ps = "[Literal ''/r/'', Placeholder '' '' ''A'', Literal ''/'', Placeholder [] ''B'',
              Literal ''/'', Placeholder [] ''toString'']"
  have h: "\<forall>u. resolveEnvPath singleRootHost ''.env'' (Some ''.env'') = Inr (Some u) \<longrightarrow>
               readFile singleRootHost u = None"
    by (simp add: singleRootHost_def)
  have w: "list_all wellFormedPiece ?ps" by code_simp
  have p: "renderPieces ?ps = ''/r/${env: A}/${env:B}/${env:toString}''" by code_simp
  have v: "substitutePieces ?f ?ps = ''/r/x//function toString() { [native code] }''"
    by code_simp
  from resolveEnvVariables_unreadable_envFile [OF h, of _ None ?ps] w
  have "readWorkspaceFile singleRootHost ''.env'' (Some ''.env'') = [] \<and>
        resolveEnvVariables singleRootHost (Some (renderPieces ?ps)) (Some ''.env'') None =
          substitutePieces ?f ?ps"
    by blast
  then show ?thesis by (simp only: p v)
qed

theorem resolveEnvVariables_unreadable_uses_process_env:
  "resolveEnvPath singleRootHost ''.env'' (Some ''.env'') = Inr (Some (fileUri ''/a/.env'')) \<and>
   readFile singleRootHost (fileUri ''/a/.env'') = None \<and>
   readWorkspaceFile singleRootHost ''.env'' (Some ''.env'') = [] \<and>
   resolveEnvVariables singleRootHost (Some ''${env:A}'') (Some ''.env'') None = ''x''"
  by code_simp

section \<open>Properties of the root resolver\<close>

text \<open>
  What \<^verbatim>\<open>Uri.parse\<close> does with a path that begins with one separator and holds no \<^verbatim>\<open>?\<close> and
  no \<^verbatim>\<open>#\<close>, where the decoding of percent-escapes leaves the path and the empty string
  as they are: the \<^verbatim>\<open>file\<close> location with exactly that path.
\<close>

lemma schemePattern_file: "schemePattern ''file''"
  by code_simp

lemma Uri_parse_plain:
  assumes "startsWith p ''/''" and "\<not> startsWith p ''//''"
    and "CHR ''?'' \<notin> set p" and "CHR ''#'' \<notin> set p"
    and "percentDecode h p = p" and "percentDecode h [] = []"
  shows "Uri_parse h p =
    Inr \<lparr>Uri_scheme = ''file'', Uri_authority = [], Uri_path = p, Uri_query = [],
         Uri_fragment = []\<rparr>"
proof -
  from assms(1) obtain t where p: "p = CHR ''/'' # t" by (cases p) (auto simp: startsWith_def)
  have pre: "takeWhile (\<lambda>c. c \<notin> set '':/?#'') p = []" by (simp add: p)
  have post: "dropWhile (\<lambda>c. c \<notin> set '':/?#'') p = p" by (simp add: p)
  have all: "\<forall>c \<in> set p. c \<notin> set ''?#''" using assms(3,4) by auto
  have tk: "takeWhile (\<lambda>c. c \<notin> set ''?#'') p = p" using all by (simp add: takeWhile_eq_all_conv)
  have dr: "dropWhile (\<lambda>c. c \<notin> set ''?#'') p = []" using all by simp
  have s0: "startsWith p ''//'' = False" using assms(2) by simp
  have s1: "startsWith [] ''?'' = False" by (simp add: startsWith_def)
  have s2: "startsWith [] ''#'' = False" by (simp add: startsWith_def)
  have n: "Uri_new [] [] p [] [] =
      Inr \<lparr>Uri_scheme = ''file'', Uri_authority = [], Uri_path = p, Uri_query = [],
           Uri_fragment = []\<rparr>"
    using assms(2) schemePattern_file
    by (simp add: Uri_new_def schemeFix_def referenceResolution_def validateUri_def p)
  have "Uri_parse h p = Uri_new [] (percentDecode h []) (percentDecode h p) (percentDecode h [])
      (percentDecode h [])"
    unfolding Uri_parse_def Let_def
    by (simp only: pre post tk dr s0 s1 s2 simp_thms if_False if_True)
  then show ?thesis by (simp only: assms(5,6) n)
qed

text \<open>
  Claim C8, as amended. The claim says that a path with a leading separator is returned
  unchanged. Two things change it. The source substitutes the environment variables
  first; and the location is built by \<^verbatim>\<open>Uri.parse\<close>, which cuts a query at \<^verbatim>\<open>?\<close> and a
  fragment at \<^verbatim>\<open>#\<close>, reads an authority after two leading separators, decodes
  percent-escapes and refuses some paths. What holds, whatever the workspace folders and
  the other arguments are: for a path with a leading separator the result is what
  \<^verbatim>\<open>Uri.parse\<close> gives for the substituted path, and no workspace folder is joined; that is
  the path itself when it holds no placeholder; and the result is the \<^verbatim>\<open>file\<close> location
  whose path is the given path, unchanged, when moreover the path does not begin with two
  separators, holds no \<^verbatim>\<open>?\<close> and no \<^verbatim>\<open>#\<close>, and the decoding of percent-escapes leaves it (and
  the empty string) as it is.
\<close>

theorem resolvePath_absolute:
  assumes "startsWith p ''/''"
  shows "resolvePath h defaultWorkspace defaultInputPath defaultEnvFile (Some p) =
           returnUri (Uri_parse h (resolveEnvVariables h (Some p) defaultEnvFile defaultWorkspace)) \<and>
         (\<not> hasEnvVar p \<longrightarrow>
            resolvePath h defaultWorkspace defaultInputPath defaultEnvFile (Some p) =
              returnUri (Uri_parse h p)) \<and>
         (\<not> hasEnvVar p \<and> \<not> startsWith p ''//'' \<and> CHR ''?'' \<notin> set p \<and> CHR ''#'' \<notin> set p \<and>
          percentDecode h p = p \<and> percentDecode h [] = [] \<longrightarrow>
            resolvePath h defaultWorkspace defaultInputPath defaultEnvFile (Some p) =
              Inr (Some \<lparr>Uri_scheme = ''file'', Uri_authority = [], Uri_path = p, Uri_query = [],
                         Uri_fragment = []\<rparr>))"
proof -
  have ne: "p \<noteq> []" using assms by (auto simp: startsWith_def)
  have "startsWith (resolveEnvVariables h (Some p) defaultEnvFile defaultWorkspace) ''/''"
    using assms ne by (simp add: resolveEnvVariables_def Let_def replaceEnvVars_slash)
  then have a: "resolvePath h defaultWorkspace defaultInputPath defaultEnvFile (Some p) =
      returnUri (Uri_parse h (resolveEnvVariables h (Some p) defaultEnvFile defaultWorkspace))"
    by (simp add: resolvePath_def Let_def)
  have i: "resolveEnvVariables h (Some p) defaultEnvFile defaultWorkspace = p"
    if "\<not> hasEnvVar p"
    using that by (simp add: resolveEnvVariables_def replaceEnvVars_id Let_def)
  have b: "resolvePath h defaultWorkspace defaultInputPath defaultEnvFile (Some p) =
      returnUri (Uri_parse h p)" if "\<not> hasEnvVar p"
    by (simp only: a i[OF that])
  have c: "resolvePath h defaultWorkspace defaultInputPath defaultEnvFile (Some p) =
      Inr (Some \<lparr>Uri_scheme = ''file'', Uri_authority = [], Uri_path = p, Uri_query = [],
                 Uri_fragment = []\<rparr>)"
    if "\<not> hasEnvVar p \<and> \<not> startsWith p ''//'' \<and> CHR ''?'' \<notin> set p \<and> CHR ''#'' \<notin> set p \<and>
        percentDecode h p = p \<and> percentDecode h [] = []"
  proof -
    from that have "Uri_parse h p =
        Inr \<lparr>Uri_scheme = ''file'', Uri_authority = [], Uri_path = p, Uri_query = [],
             Uri_fragment = []\<rparr>"
      by (intro Uri_parse_plain assms) simp_all
    then show ?thesis using b that by (simp add: returnUri_def)
  qed
  show ?thesis by (intro conjI impI) (rule a, erule b, erule c)
qed

theorem resolvePath_absolute_witness:
  "resolvePath exampleHost (Some ''ws2'') (Some ''in'') None (Some ''/srv/my data/x.env'') =
     Inr (Some \<lparr>Uri_scheme = ''file'', Uri_authority = [], Uri_path = ''/srv/my data/x.env'',
                Uri_query = [], Uri_fragment = []\<rparr>)"
proof -
  have h: "startsWith ''/srv/my data/x.env'' ''/''" by code_simp
  have n: "\<not> hasEnvVar ''/srv/my data/x.env'' \<and> \<not> startsWith ''/srv/my data/x.env'' ''//'' \<and>
           CHR ''?'' \<notin> set ''/srv/my data/x.env'' \<and> CHR ''#'' \<notin> set ''/srv/my data/x.env'' \<and>
           percentDecode exampleHost ''/srv/my data/x.env'' = ''/srv/my data/x.env'' \<and>
           percentDecode exampleHost [] = []"
    by code_simp
  from resolvePath_absolute [OF h, of exampleHost "Some ''ws2''" "Some ''in''" None] n
  show ?thesis by blast
qed

theorem resolvePath_absolute_substituted:
  "startsWith ''/${env:A}'' ''/'' \<and>
   resolvePath exampleHost None None None (Some ''/${env:A}'') = Inr (Some (fileUri ''/x'')) \<and>
   returnUri (Uri_parse exampleHost ''/${env:A}'') = Inr (Some (fileUri ''/${env:A}'')) \<and>
   resolvePath exampleHost None None None (Some ''/p?q=1#f'') =
     Inr (Some \<lparr>Uri_scheme = ''file'', Uri_authority = [], Uri_path = ''/p'', Uri_query = ''q=1'',
                Uri_fragment = ''f''\<rparr>) \<and>
   resolvePath exampleHost None None None (Some ''//srv/x'') =
     Inr (Some \<lparr>Uri_scheme = ''file'', Uri_authority = ''srv'', Uri_path = ''/x'', Uri_query = [],
                Uri_fragment = []\<rparr>) \<and>
   resolvePath exampleHost None None None (Some ''////x'') = Inl UriError"
  by code_simp

text \<open>
  The function that locates the env file follows the root resolver step by step: on a
  non-empty path without placeholders the two agree, for the same workspace name.
\<close>

lemma resolveEnvPath_eq_resolvePath:
  assumes "p \<noteq> []" and "\<not> hasEnvVar p"
  shows "resolveEnvPath h p defaultWorkspace =
         resolvePath h defaultWorkspace defaultInputPath defaultEnvFile (Some p)"
proof -
  have "resolveEnvVariables h (Some p) defaultEnvFile defaultWorkspace = p"
    using assms(2) by (simp add: resolveEnvVariables_def replaceEnvVars_id Let_def)
  then show ?thesis using assms(1)
    by (simp add: resolveEnvPath_def resolvePath_def Let_def split: option.splits)
qed

text \<open>
  Claim C2, at the input where the source departs from it. The substitution calls
  \<^verbatim>\<open>readWorkspaceFile(defaultEnvFile, defaultEnvFile)\<close>: the workspace name it hands on is
  the env file's path, not \<^verbatim>\<open>defaultWorkspace\<close>. With two workspace folders, the name
  \<^verbatim>\<open>ws1\<close> configured and the env file \<^verbatim>\<open>.env\<close>, the root resolver puts \<^verbatim>\<open>.env\<close> at
  \<^verbatim>\<open>/a/.env\<close>, a file that holds \<^verbatim>\<open>A=fromfile\<close>; the substitution looks for a folder named
  \<^verbatim>\<open>.env\<close>, finds no location, reads nothing and takes \<^verbatim>\<open>A\<close> from the process environment.
\<close>

theorem envFile_location_ignores_defaultWorkspace:
  "resolvePath exampleHost (Some ''ws1'') None (Some ''.env'') (Some ''.env'') =
     Inr (Some (fileUri ''/a/.env'')) \<and>
   resolveEnvPath exampleHost ''.env'' (Some ''ws1'') = Inr (Some (fileUri ''/a/.env'')) \<and>
   readFile exampleHost (fileUri ''/a/.env'') = Some ''A=fromfile'' \<and>
   resolveEnvPath exampleHost ''.env'' (Some ''.env'') = Inr None \<and>
   readWorkspaceFile exampleHost ''.env'' (Some ''.env'') = [] \<and>
   resolveEnvVariables exampleHost (Some ''${env:A}'') (Some ''.env'') (Some ''ws1'') = ''x''"
  by code_simp

section \<open>Properties of path normalisation and of locations\<close>

lemma dropWhile_all: "\<forall>x \<in> set xs. P x \<Longrightarrow> dropWhile P xs = []"
  by simp

lemma normalSegments_Nil: "normalSegments a []"
  by (simp add: normalSegments_def)

lemma normalSegments_butlast: "normalSegments a res \<Longrightarrow> normalSegments a (butlast res)"
proof (cases "res = []")
  case True
  then show "normalSegments a res \<Longrightarrow> normalSegments a (butlast res)" by simp
next
  case False
  then have r: "res = butlast res @ [last res]" by simp
  assume "normalSegments a res"
  then have "normalSegments a (butlast res @ [last res])" using r by simp
  then show "normalSegments a (butlast res)"
    by (auto simp: normalSegments_def dropWhile_append dropWhile_all split: if_splits)
qed

lemma normalSegments_all_dotdot:
  "normalSegments a (xs @ ''..'' # ys) \<Longrightarrow> (\<forall>x \<in> set xs. x = ''..'') \<and> a"
  by (auto simp: normalSegments_def dropWhile_append split: if_splits)

lemma normalSegments_push_dotdot:
  assumes "normalSegments a res" "res = [] \<or> last res = ''..''" "a"
  shows "normalSegments a (res @ [''..''])"
proof (cases "res = []")
  case True
  then show ?thesis using assms by (simp add: normalSegments_def)
next
  case False
  then have r: "res = butlast res @ [''..'']" using assms(2) by (metis append_butlast_last_id)
  then have "normalSegments a (butlast res @ ''..'' # [])" using assms(1) by simp
  then have "\<forall>x \<in> set (butlast res). x = ''..''" by (rule normalSegments_all_dotdot[THEN conjunct1])
  then have "\<forall>x \<in> set res. x = ''..''" using r by (metis in_set_butlastD insert_iff list.simps(15) rotate1.simps(2) set_rotate1)
  then show ?thesis using assms by (auto simp: normalSegments_def dropWhile_append)
qed

lemma normalSegments_push:
  assumes "normalSegments a res" "seg \<noteq> []" "seg \<noteq> ''.''" "seg \<noteq> ''..''" "CHR ''/'' \<notin> set seg"
  shows "normalSegments a (res @ [seg])"
  using assms by (auto simp: normalSegments_def dropWhile_append)

lemma normalizeSegments_normal:
  "normalSegments a res \<Longrightarrow> \<forall>x \<in> set segs. CHR ''/'' \<notin> set x \<Longrightarrow>
   normalSegments a (normalizeSegments a res segs)"
proof (induction segs arbitrary: res)
  case Nil
  then show ?case by simp
next
  case (Cons seg segs)
  let ?res' = "(if seg = [] \<or> seg = ''.'' then res
        else if seg = ''..'' then
          (if res \<noteq> [] \<and> last res \<noteq> ''..'' then butlast res
           else if a then res @ [''..''] else res)
        else res @ [seg])"
  have "normalSegments a ?res'"
    using Cons.prems normalSegments_butlast[of a res] normalSegments_push_dotdot[of a res]
      normalSegments_push[of a res seg]
    by auto
  moreover have "\<forall>x \<in> set segs. CHR ''/'' \<notin> set x" using Cons.prems by simp
  ultimately have "normalSegments a (normalizeSegments a ?res' segs)" by (rule Cons.IH)
  then show ?case by simp
qed

lemma normalizeSegments_fixed:
  "normalSegments a (res @ segs) \<Longrightarrow> normalizeSegments a res segs = res @ segs"
proof (induction segs arbitrary: res)
  case Nil
  then show ?case by simp
next
  case (Cons seg segs)
  have b: "seg \<noteq> [] \<and> seg \<noteq> ''.''" using Cons.prems by (simp add: normalSegments_def)
  have d: "seg = ''..'' \<Longrightarrow> (res = [] \<or> last res = ''..'') \<and> a"
  proof -
    assume "seg = ''..''"
    then have "(\<forall>x \<in> set res. x = ''..'') \<and> a"
      using Cons.prems normalSegments_all_dotdot[of a res segs] by simp
    then show ?thesis by (cases "res = []") auto
  qed
  have "normalizeSegments a res (seg # segs) = normalizeSegments a (res @ [seg]) segs"
    using b d by auto
  also have "\<dots> = (res @ [seg]) @ segs" using Cons.prems by (intro Cons.IH) simp
  finally show ?case by simp
qed

lemma normalizeSegments_append:
  "normalizeSegments a res (xs @ ys) = normalizeSegments a (normalizeSegments a res xs) ys"
  by (induction xs arbitrary: res) simp_all

lemma splitChar_parts: "\<forall>x \<in> set (splitChar c s). c \<notin> set x"
  by (induction s) (auto split: list.splits)

lemma join_Cons: "xs \<noteq> [] \<Longrightarrow> join sep (x # xs) = x @ sep @ join sep xs"
  by (cases xs) simp_all

lemma splitChar_join:
  "segs \<noteq> [] \<Longrightarrow> \<forall>x \<in> set segs. c \<notin> set x \<Longrightarrow>
   splitChar c (join [c] segs @ c # t) = segs @ splitChar c t"
proof (induction segs rule: list_nonempty_induct)
  case (single x)
  then show ?case by (simp add: splitChar_key)
next
  case (cons x xs)
  have "splitChar c (join [c] (x # xs) @ c # t) = splitChar c (x @ c # (join [c] xs @ c # t))"
    using cons.hyps by (simp add: join_Cons)
  also have "\<dots> = x # splitChar c (join [c] xs @ c # t)"
    using cons.prems by (simp add: splitChar_key)
  also have "\<dots> = x # xs @ splitChar c t" using cons by simp
  finally show ?case by simp
qed

lemma join_Nil_iff: "\<forall>x \<in> set segs. x \<noteq> [] \<Longrightarrow> join sep segs = [] \<longleftrightarrow> segs = []"
  by (induction sep segs rule: join.induct) auto

lemma hd_join: "segs \<noteq> [] \<Longrightarrow> hd segs \<noteq> [] \<Longrightarrow> hd (join sep segs) = hd (hd segs)"
  by (induction sep segs rule: join.induct) auto

lemma posix_normalize_segments:
  assumes n: "normalSegments (\<not> isAbs) segs" and ne: "segs \<noteq> []"
  shows "posix_normalize (((if isAbs then ''/'' else []) @ join ''/'' segs) @ ''/.'') =
         (if isAbs then ''/'' else []) @ join ''/'' segs"
proof -
  let ?res = "join ''/'' segs"
  let ?s = "((if isAbs then ''/'' else []) @ ?res) @ ''/.''"
  from n have nempty: "\<forall>x \<in> set segs. x \<noteq> []" and ns: "\<forall>x \<in> set segs. CHR ''/'' \<notin> set x"
    by (auto simp: normalSegments_def list_all_iff)
  have rne: "?res \<noteq> []" using join_Nil_iff[OF nempty, of "''/''"] ne by simp
  have "hd segs \<noteq> [] \<and> CHR ''/'' \<notin> set (hd segs)" using ne nempty ns by simp
  then have hr: "hd ?res \<noteq> CHR ''/''"
    using hd_join[of segs "''/''"] ne by (metis hd_in_set)
  have habs: "(hd ?s = CHR ''/'') = isAbs" using hr rne by simp
  have hlast: "last ?s \<noteq> CHR ''/''" by simp
  have sne: "?s \<noteq> []" by simp
  have sp: "splitChar CHR ''/'' (?res @ ''/.'') = segs @ [''.'']"
    using splitChar_join[OF ne ns, of "''.''"] by simp
  have sp': "normalizeSegments (\<not> isAbs) [] (splitChar CHR ''/'' ?s) =
             normalizeSegments (\<not> isAbs) [] (segs @ [''.''])"
    using sp by simp
  have fx: "normalizeSegments (\<not> isAbs) [] (segs @ [''.'']) = segs"
    using normalizeSegments_fixed[of "\<not> isAbs" "[]" segs] n
    by (simp add: normalizeSegments_append)
  have ns: "normalizeString ?s (\<not> isAbs) = ?res"
    unfolding normalizeString_def using sp' fx by simp
  show ?thesis
    unfolding posix_normalize_def Let_def habs
    using sne hlast ns rne by simp
qed

lemma posix_normalize_dot:
  assumes "p \<noteq> []"
  shows "posix_normalize (posix_normalize (p @ ''/.'') @ ''/.'') = posix_normalize (p @ ''/.'')"
proof -
  let ?abs = "hd p = CHR ''/''"
  let ?segs = "normalizeSegments (\<not> ?abs) [] (splitChar CHR ''/'' (p @ ''/.''))"
  have n: "normalSegments (\<not> ?abs) ?segs"
    by (rule normalizeSegments_normal) (simp_all add: normalSegments_Nil splitChar_parts)
  then have ne: "\<forall>x \<in> set ?segs. x \<noteq> []"
    by (auto simp: normalSegments_def list_all_iff)
  have hdp: "hd (p @ ''/.'') = hd p" using assms by simp
  have q: "posix_normalize (p @ ''/.'') =
      (if ?segs = [] then (if ?abs then ''/'' else ''.'')
       else (if ?abs then ''/'' else []) @ join ''/'' ?segs)"
    using join_Nil_iff[OF ne, of "''/''"]
    by (simp add: posix_normalize_def normalizeString_def Let_def hdp)
  show ?thesis
  proof (cases "?segs = []")
    case True
    then have "posix_normalize (p @ ''/.'') = (if ?abs then ''/'' else ''.'')" using q by simp
    moreover have "posix_normalize (''/'' @ ''/.'') = ''/''"
      by (simp add: posix_normalize_def normalizeString_def)
    moreover have "posix_normalize (''.'' @ ''/.'') = ''.''"
      by (simp add: posix_normalize_def normalizeString_def)
    ultimately show ?thesis by (simp split: if_splits)
  next
    case False
    have "posix_normalize (p @ ''/.'') = (if ?abs then ''/'' else []) @ join ''/'' ?segs"
      using q False by simp
    then show ?thesis using posix_normalize_segments[OF n False] by simp
  qed
qed

lemma posix_normalize_not_Nil: "posix_normalize s \<noteq> []"
  by (simp add: posix_normalize_def Let_def)

lemma posix_normalize_absolute:
  "s \<noteq> [] \<Longrightarrow> hd s = CHR ''/'' \<Longrightarrow> hd (posix_normalize s) = CHR ''/''"
  by (simp add: posix_normalize_def Let_def)

lemma posix_join_dot: "p \<noteq> [] \<Longrightarrow> posix_join [p, ''.''] = posix_normalize (p @ ''/.'')"
  by (simp add: posix_join_def)

lemma isUri_fields:
  assumes "isUri u"
  shows "schemeFix (Uri_scheme u) = Uri_scheme u"
    and "referenceResolution (Uri_scheme u) (Uri_path u) = Uri_path u"
proof -
  let ?v = "\<lparr>Uri_scheme = schemeFix (Uri_scheme u), Uri_authority = Uri_authority u,
       Uri_path = referenceResolution (schemeFix (Uri_scheme u)) (Uri_path u),
       Uri_query = Uri_query u, Uri_fragment = Uri_fragment u\<rparr>"
  from assms have "validateUri ?v = Inr u" by (simp add: isUri_def Uri_new_def)
  then have e: "?v = u" by (auto simp: validateUri_def split: if_splits)
  from e have "Uri_scheme ?v = Uri_scheme u" by simp
  then show s: "schemeFix (Uri_scheme u) = Uri_scheme u" by simp
  from e have "Uri_path ?v = Uri_path u" by simp
  then show "referenceResolution (Uri_scheme u) (Uri_path u) = Uri_path u" using s by simp
qed

lemma Uri_new_fields:
  assumes "Uri_new sch auth p q f = Inr u"
  shows "u = \<lparr>Uri_scheme = schemeFix sch, Uri_authority = auth,
       Uri_path = referenceResolution (schemeFix sch) p, Uri_query = q, Uri_fragment = f\<rparr>"
  using assms by (auto simp: Uri_new_def validateUri_def split: if_splits)

lemma referenceResolution_absolute:
  assumes "referenceResolution sch p = p" "p \<noteq> []" "q \<noteq> []" "hd p = CHR ''/'' \<longrightarrow> hd q = CHR ''/''"
  shows "referenceResolution sch q = q"
  using assms by (cases p) (auto simp: referenceResolution_def split: if_splits)

lemma Uri_joinPath_dot_fixed:
  assumes u: "isUri dir0" and j: "Uri_joinPath dir0 ''.'' = Inr dir"
  shows "Uri_joinPath dir ''.'' = Inr dir"
proof -
  let ?p = "Uri_path dir0"
  let ?q = "posix_normalize (?p @ ''/.'')"
  from j have pne: "?p \<noteq> []" by (auto simp: Uri_joinPath_def split: if_splits)
  from j pne have w: "Uri_with_path dir0 ?q = Inr dir"
    by (simp add: Uri_joinPath_def posix_join_dot)
  show ?thesis
  proof (cases "?q = ?p")
    case True
    then have "dir = dir0" using w by (simp add: Uri_with_path_def)
    then show ?thesis using j by simp
  next
    case False
    then have "Uri_new (Uri_scheme dir0) (Uri_authority dir0) ?q (Uri_query dir0) (Uri_fragment dir0) = Inr dir"
      using w by (simp add: Uri_with_path_def)
    then have e: "dir = \<lparr>Uri_scheme = schemeFix (Uri_scheme dir0), Uri_authority = Uri_authority dir0,
        Uri_path = referenceResolution (schemeFix (Uri_scheme dir0)) ?q,
        Uri_query = Uri_query dir0, Uri_fragment = Uri_fragment dir0\<rparr>"
      by (rule Uri_new_fields)
    have "Uri_path dir = referenceResolution (schemeFix (Uri_scheme dir0)) ?q"
      by (subst e) simp
    also have "\<dots> = referenceResolution (Uri_scheme dir0) ?q"
      by (simp only: isUri_fields(1)[OF u])
    also have "\<dots> = ?q"
    proof (rule referenceResolution_absolute)
      show "referenceResolution (Uri_scheme dir0) ?p = ?p" by (rule isUri_fields(2)[OF u])
      show "?p \<noteq> []" by (rule pne)
      show "?q \<noteq> []" by (rule posix_normalize_not_Nil)
      show "hd ?p = CHR ''/'' \<longrightarrow> hd ?q = CHR ''/''"
      proof
        assume "hd ?p = CHR ''/''"
        then have "hd (?p @ ''/.'') = CHR ''/''" using pne by simp
        then show "hd ?q = CHR ''/''" by (intro posix_normalize_absolute) simp_all
      qed
    qed
    finally have pd: "Uri_path dir = ?q" .
    have pne': "Uri_path dir \<noteq> []" by (simp only: pd posix_normalize_not_Nil not_False_eq_True)
    have "posix_join [Uri_path dir, ''.''] = posix_normalize (Uri_path dir @ ''/.'')"
      using pne' by (rule posix_join_dot)
    also have "\<dots> = posix_normalize (?q @ ''/.'')" by (simp only: pd)
    also have "\<dots> = ?q" using pne by (rule posix_normalize_dot)
    also have "\<dots> = Uri_path dir" by (simp only: pd)
    finally have eq: "posix_join [Uri_path dir, ''.''] = Uri_path dir" .
    show ?thesis
      unfolding Uri_joinPath_def Uri_with_path_def by (simp only: pne' eq if_False if_True simp_thms)
  qed
qed

lemma Uri_joinPath_components:
  assumes "schemeFix (Uri_scheme u) = Uri_scheme u" and "Uri_joinPath u f = Inr v"
  shows "v = u\<lparr>Uri_path := Uri_path v\<rparr>"
proof (cases "posix_join [Uri_path u, f] = Uri_path u")
  case True
  then have "v = u" using assms(2) by (simp add: Uri_joinPath_def Uri_with_path_def split: if_splits)
  then show ?thesis by simp
next
  case False
  then have "Uri_new (Uri_scheme u) (Uri_authority u) (posix_join [Uri_path u, f]) (Uri_query u)
      (Uri_fragment u) = Inr v"
    using assms(2) by (simp add: Uri_joinPath_def Uri_with_path_def split: if_splits)
  then have "v = \<lparr>Uri_scheme = schemeFix (Uri_scheme u), Uri_authority = Uri_authority u,
        Uri_path = referenceResolution (schemeFix (Uri_scheme u)) (posix_join [Uri_path u, f]),
        Uri_query = Uri_query u, Uri_fragment = Uri_fragment u\<rparr>"
    by (rule Uri_new_fields)
  then show ?thesis using assms(1) by simp
qed

lemma schemeFix_idem: "schemeFix (schemeFix s) = schemeFix s"
  by (simp add: schemeFix_def)

lemma Uri_joinPath_scheme:
  assumes "isUri u" and "Uri_joinPath u f = Inr v"
  shows "schemeFix (Uri_scheme v) = Uri_scheme v"
proof -
  from Uri_joinPath_components[OF isUri_fields(1)[OF assms(1)] assms(2)]
  have "Uri_scheme v = Uri_scheme (u\<lparr>Uri_path := Uri_path v\<rparr>)" by simp
  then have "Uri_scheme v = Uri_scheme u" by simp
  then show ?thesis using isUri_fields(1)[OF assms(1)] by simp
qed

section \<open>Properties of the quick-select navigation\<close>

lemma mapE_Inr_set:
  "mapE f xs = Inr ys \<Longrightarrow> y \<in> set ys \<Longrightarrow> \<exists>x \<in> set xs. f x = Inr y"
  by (induction xs arbitrary: ys) (auto split: sum.splits)

lemma mapE_Inr_member:
  "mapE f xs = Inr ys \<Longrightarrow> x \<in> set xs \<Longrightarrow> \<exists>y \<in> set ys. f x = Inr y"
  by (induction xs arbitrary: ys) (auto split: sum.splits)

lemma filterE_Inr_set: "filterE f xs = Inr ys \<Longrightarrow> y \<in> set ys \<Longrightarrow> y \<in> set xs"
  by (induction xs arbitrary: ys) (auto split: sum.splits if_splits)

lemma filterE_Inr_member:
  "filterE f xs = Inr ys \<Longrightarrow> x \<in> set xs \<Longrightarrow> f x = Inr True \<Longrightarrow> x \<in> set ys"
  by (induction xs arbitrary: ys) (auto split: sum.splits if_splits)

lemma quickPickItems_uri:
  assumes "quickPickItems h dir options children = Inr items" and "item \<in> set items"
  shows "Uri_joinPath dir (Item_name item) = Inr (Item_uri item)"
proof -
  from assms(1) obtain entries es where
    m: "mapE (toEntry dir) (pseudoEntries options @ children) = Inr entries"
    and f: "filterE (regExpFilter h options) entries = Inr es"
    and i: "items = map withLabel (filter (fileFilter options)
              (filter (folderFilter options) (filter (extFilter options) es)))"
    by (auto simp: quickPickItems_def split: sum.splits)
  from assms(2) obtain e where e: "e \<in> set es" "item = withLabel e"
    unfolding i by auto
  from filterE_Inr_set[OF f e(1)] have "e \<in> set entries" .
  from mapE_Inr_set[OF m this] obtain child where "toEntry dir child = Inr e" by blast
  then have "Uri_joinPath dir (Item_name e) = Inr (Item_uri e)"
    by (auto simp: toEntry_def split: sum.splits)
  then show ?thesis using e(2) by (simp add: withLabel_def)
qed

lemma quickPickItems_dot:
  assumes "quickPickItems h dir options children = Inr items"
    and "Options_canSelectFolders options" and "Uri_joinPath dir ''.'' = Inr dir"
  shows "\<lparr>Item_uri = dir, Item_name = ''.'', Item_type = Directory, Item_label = ''./''\<rparr> \<in> set items"
proof -
  let ?d = "\<lparr>Item_uri = dir, Item_name = ''.'', Item_type = Directory\<rparr>"
  from assms(1) obtain entries es where
    m: "mapE (toEntry dir) (pseudoEntries options @ children) = Inr entries"
    and f: "filterE (regExpFilter h options) entries = Inr es"
    and i: "items = map withLabel (filter (fileFilter options)
              (filter (folderFilter options) (filter (extFilter options) es)))"
    by (auto simp: quickPickItems_def split: sum.splits)
  have "(''.'', Directory) \<in> set (pseudoEntries options @ children)"
    using assms(2) by (simp add: pseudoEntries_def)
  from mapE_Inr_member[OF m this] obtain y where
    y: "y \<in> set entries" "toEntry dir (''.'', Directory) = Inr y" by blast
  have "toEntry dir (''.'', Directory) = Inr ?d" using assms(3) by (simp add: toEntry_def)
  with y have de: "?d \<in> set entries" by simp
  have rg: "regExpFilter h options ?d = Inr True" by (simp add: regExpFilter_def)
  have "?d \<in> set es" by (rule filterE_Inr_member[OF f de rg])
  moreover have "extFilter options ?d" "folderFilter options ?d" "fileFilter options ?d"
    using assms(2) by (simp_all add: extFilter_def folderFilter_def fileFilter_def)
  ultimately have "withLabel ?d \<in> set items" unfolding i by simp
  then show ?thesis by (simp add: withLabel_def)
qed

lemma listed_uri_differs_by_path:
  assumes "isUri dir0" and "quickPickList h dir0 options = Inr (dir, items)" and "item \<in> set items"
  shows "(Item_uri item \<noteq> dir) = (Uri_path (Item_uri item) \<noteq> Uri_path dir)"
proof -
  from assms(2) obtain children where
    j: "Uri_joinPath dir0 ''.'' = Inr dir"
    and q: "quickPickItems h dir options children = Inr items"
    by (auto simp: quickPickList_def split: sum.splits option.splits)
  have s: "schemeFix (Uri_scheme dir) = Uri_scheme dir" using assms(1) j by (rule Uri_joinPath_scheme)
  have "Uri_joinPath dir (Item_name item) = Inr (Item_uri item)"
    using q assms(3) by (rule quickPickItems_uri)
  from Uri_joinPath_components[OF s this]
  have e: "Item_uri item = dir\<lparr>Uri_path := Uri_path (Item_uri item)\<rparr>" .
  show ?thesis
  proof
    assume "Item_uri item \<noteq> dir"
    then show "Uri_path (Item_uri item) \<noteq> Uri_path dir" using e by (metis Uri.surjective Uri.update_convs(3))
  next
    assume "Uri_path (Item_uri item) \<noteq> Uri_path dir"
    then show "Item_uri item \<noteq> dir" by auto
  qed
qed

lemma filterE_all:
  "\<forall>x \<in> set xs. f x = Inr True \<Longrightarrow> filterE f xs = Inr xs"
  by (induction xs) auto

lemma mapE_toEntry:
  "mapE (toEntry dir) children = Inr entries \<Longrightarrow>
   map (\<lambda>e. (Item_name e, Item_type e)) entries = children"
proof (induction children arbitrary: entries)
  case Nil
  then show ?case by simp
next
  case (Cons c cs)
  from Cons.prems obtain e es where
    e: "toEntry dir c = Inr e" and es: "mapE (toEntry dir) cs = Inr es" and en: "entries = e # es"
    by (auto split: sum.splits)
  from e have "(Item_name e, Item_type e) = c"
    by (auto simp: toEntry_def split: sum.splits)
  then show ?case using Cons.IH[OF es] en by simp
qed

lemma quickPickItems_files_only:
  assumes "\<not> Options_canSelectFolders options" and "\<not> Options_canChangeFolder options"
    and "Options_canSelectFiles options"
    and "Options_filterRegExp options = None" and "Options_filterExt options = None"
    and "quickPickItems h dir options children = Inr items"
  shows "map (\<lambda>item. (Item_name item, Item_type item)) items =
         filter (\<lambda>child. snd child \<noteq> Directory) children"
proof -
  have p: "pseudoEntries options = []" using assms(1,2) by (simp add: pseudoEntries_def)
  from assms(6) obtain entries es where
    m: "mapE (toEntry dir) children = Inr entries"
    and f: "filterE (regExpFilter h options) entries = Inr es"
    and i: "items = map withLabel (filter (fileFilter options)
              (filter (folderFilter options) (filter (extFilter options) es)))"
    by (auto simp: quickPickItems_def p split: sum.splits)
  have "filterE (regExpFilter h options) entries = Inr entries"
    by (rule filterE_all) (simp add: regExpFilter_def assms(4))
  then have es: "es = entries" using f by simp
  have x: "extFilter options = (\<lambda>e. True)" by (rule ext) (simp add: extFilter_def assms(5))
  have fi: "fileFilter options = (\<lambda>e. True)" by (rule ext) (simp add: fileFilter_def assms(3))
  have fo: "folderFilter options = (\<lambda>e. Item_type e \<noteq> Directory)"
    by (rule ext) (simp add: folderFilter_def assms(1,2))
  have "items = map withLabel (filter (\<lambda>e. Item_type e \<noteq> Directory) entries)"
    unfolding i es x fi fo by simp
  then have "map (\<lambda>item. (Item_name item, Item_type item)) items =
      map (\<lambda>e. (Item_name e, Item_type e)) (filter (\<lambda>e. Item_type e \<noteq> Directory) entries)"
    by (simp add: withLabel_def comp_def)
  also have "\<dots> = filter (\<lambda>child. snd child \<noteq> Directory) (map (\<lambda>e. (Item_name e, Item_type e)) entries)"
    by (simp add: filter_map comp_def)
  also have "\<dots> = filter (\<lambda>child. snd child \<noteq> Directory) children"
    by (simp only: mapE_toEntry[OF m])
  finally show ?thesis .
qed

lemma quickPickItems_label:
  assumes "quickPickItems h dir options children = Inr items" and "item \<in> set items"
  shows "Item_label item = (if Item_type item = Directory then Item_name item @ ''/'' else Item_name item)"
proof -
  from assms(1) obtain es where
    i: "items = map withLabel (filter (fileFilter options)
              (filter (folderFilter options) (filter (extFilter options) es)))"
    by (auto simp: quickPickItems_def split: sum.splits)
  from assms(2) obtain e where "item = withLabel e" unfolding i by auto
  then show ?thesis by (simp add: withLabel_def)
qed

lemma keep_two:
  "snd a \<noteq> D \<Longrightarrow> snd b \<noteq> D \<Longrightarrow> snd c = D \<Longrightarrow> {x \<in> {a, b, c}. snd x \<noteq> D} = {a, b}"
  by auto

lemma snd_of_two: "(n, t) \<in> {(a, T), (b, T)} \<Longrightarrow> t = T"
  by auto


text \<open>
  Claim C6. With folder selection and folder change off, files selectable (the default)
  and no filter, for a directory whose entries are the files \<^verbatim>\<open>x.env\<close> and \<^verbatim>\<open>y.txt\<close> and the
  directory \<^verbatim>\<open>sub\<close> (in whatever order the directory is read), the names in the list
  given to the prompt are exactly \<^verbatim>\<open>x.env\<close> and \<^verbatim>\<open>y.txt\<close>: no \<^verbatim>\<open>..\<close>, no \<^verbatim>\<open>.\<close>, no \<^verbatim>\<open>sub\<close>.
  The list holds the entries that are not directories, in the directory's order; each
  item is a file, labelled by its name, at the location of its name in the directory.
\<close>

theorem quickPickList_files_only:
  assumes "\<not> Options_canSelectFolders options" and "\<not> Options_canChangeFolder options"
    and "Options_canSelectFiles options"
    and "Options_filterRegExp options = None" and "Options_filterExt options = None"
    and "quickPickList h dir0 options = Inr (dir, items)"
    and "readDirectory h dir = Some children"
    and "set children = {(''x.env'', File), (''y.txt'', File), (''sub'', Directory)}"
  shows "set (map Item_name items) = {''x.env'', ''y.txt''} \<and>
         map (\<lambda>item. (Item_name item, Item_type item)) items =
           filter (\<lambda>child. snd child \<noteq> Directory) children \<and>
         (\<forall>item \<in> set items.
            Item_type item = File \<and> Item_label item = Item_name item \<and>
            Uri_joinPath dir (Item_name item) = Inr (Item_uri item))"
proof -
  from assms(6,7) have q: "quickPickItems h dir options children = Inr items"
    by (auto simp: quickPickList_def split: sum.splits option.splits)
  have m: "map (\<lambda>item. (Item_name item, Item_type item)) items =
           filter (\<lambda>child. snd child \<noteq> Directory) children"
    using assms(1-5) q by (rule quickPickItems_files_only)
  have "set (filter (\<lambda>child. snd child \<noteq> Directory) children) =
        {child \<in> {(''x.env'', File), (''y.txt'', File), (''sub'', Directory)}. snd child \<noteq> Directory}"
    by (simp only: set_filter assms(8))
  also have "\<dots> = {(''x.env'', File), (''y.txt'', File)}"
    by (rule keep_two) simp_all
  finally have s: "set (map (\<lambda>item. (Item_name item, Item_type item)) items) =
      {(''x.env'', File), (''y.txt'', File)}"
    by (simp only: m)
  have "set (map Item_name items) = fst ` set (map (\<lambda>item. (Item_name item, Item_type item)) items)"
    by (simp add: image_image)
  also have "\<dots> = fst ` {(''x.env'', File), (''y.txt'', File)}" by (simp only: s)
  also have "\<dots> = {''x.env'', ''y.txt''}" by (simp only: image_insert image_empty fst_conv)
  finally have n: "set (map Item_name items) = {''x.env'', ''y.txt''}" .
  have t: "Item_type item = File" if "item \<in> set items" for item
  proof -
    from that have "(Item_name item, Item_type item) \<in>
        set (map (\<lambda>item. (Item_name item, Item_type item)) items)" by (simp add: image_iff) blast
    then have "(Item_name item, Item_type item) \<in> {(''x.env'', File), (''y.txt'', File)}"
      by (simp only: s)
    then show ?thesis by (rule snd_of_two)
  qed
  have "Item_type item = File \<and> Item_label item = Item_name item \<and>
        Uri_joinPath dir (Item_name item) = Inr (Item_uri item)" if "item \<in> set items" for item
    using t[OF that] quickPickItems_label[OF q that] quickPickItems_uri[OF q that] by simp
  then show ?thesis using n m by blast
qed

theorem quickPickList_files_only_witness:
  "quickPickList exampleHost (fileUri ''/a'') (FullParam_options (parseArgs (Some scenarioArgs))) =
     Inr (fileUri ''/a'', [entryItem ''/a/x.env'' ''x.env'' File, entryItem ''/a/y.txt'' ''y.txt'' File]) \<and>
   set (map Item_name [entryItem ''/a/x.env'' ''x.env'' File, entryItem ''/a/y.txt'' ''y.txt'' File]) =
     {''x.env'', ''y.txt''}"
proof -
  let ?o = "FullParam_options (parseArgs (Some scenarioArgs))"
  let ?items = "[entryItem ''/a/x.env'' ''x.env'' File, entryItem ''/a/y.txt'' ''y.txt'' File]"
  let ?children = "[(''x.env'', File), (''y.txt'', File), (''sub'', Directory)]"
  have a1: "\<not> Options_canSelectFolders ?o" by code_simp
  have a2: "\<not> Options_canChangeFolder ?o" by code_simp
  have a3: "Options_canSelectFiles ?o" by code_simp
  have a4: "Options_filterRegExp ?o = None" by code_simp
  have a5: "Options_filterExt ?o = None" by code_simp
  have a6: "quickPickList exampleHost (fileUri ''/a'') ?o = Inr (fileUri ''/a'', ?items)" by code_simp
  have a7: "readDirectory exampleHost (fileUri ''/a'') = Some ?children" by code_simp
  have a8: "set ?children = {(''x.env'', File), (''y.txt'', File), (''sub'', Directory)}" by simp
  from quickPickList_files_only [OF a1 a2 a3 a4 a5 a6 a7 a8]
  have "set (map Item_name ?items) = {''x.env'', ''y.txt''}" by blast
  with a6 show ?thesis by blast
qed

lemma quickPickItems_sound:
  assumes "quickPickItems h dir options children = Inr items" and "item \<in> set items"
  shows "(Item_name item, Item_type item) \<in> set (pseudoEntries options @ children)"
proof -
  from assms(1) obtain entries es where
    m: "mapE (toEntry dir) (pseudoEntries options @ children) = Inr entries"
    and f: "filterE (regExpFilter h options) entries = Inr es"
    and i: "items = map withLabel (filter (fileFilter options)
              (filter (folderFilter options) (filter (extFilter options) es)))"
    by (auto simp: quickPickItems_def split: sum.splits)
  from assms(2) obtain e where e: "e \<in> set es" "item = withLabel e"
    unfolding i by auto
  from filterE_Inr_set[OF f e(1)] have "e \<in> set entries" .
  then have "(Item_name e, Item_type e) \<in> set (map (\<lambda>e. (Item_name e, Item_type e)) entries)"
    by (simp add: image_iff) blast
  then have "(Item_name e, Item_type e) \<in> set (pseudoEntries options @ children)"
    by (simp only: mapE_toEntry[OF m])
  then show ?thesis using e(2) by (simp add: withLabel_def)
qed

lemma quickPickItems_directory:
  assumes "quickPickItems h dir options children = Inr items"
    and "(n, Directory) \<in> set (pseudoEntries options @ children)"
    and "Options_canSelectFolders options \<or> Options_canChangeFolder options"
  shows "\<exists>u. Uri_joinPath dir n = Inr u \<and>
     \<lparr>Item_uri = u, Item_name = n, Item_type = Directory, Item_label = n @ ''/''\<rparr> \<in> set items"
proof -
  from assms(1) obtain entries es where
    m: "mapE (toEntry dir) (pseudoEntries options @ children) = Inr entries"
    and f: "filterE (regExpFilter h options) entries = Inr es"
    and i: "items = map withLabel (filter (fileFilter options)
              (filter (folderFilter options) (filter (extFilter options) es)))"
    by (auto simp: quickPickItems_def split: sum.splits)
  from mapE_Inr_member[OF m assms(2)] obtain y where
    y: "y \<in> set entries" "toEntry dir (n, Directory) = Inr y" by blast
  from y(2) obtain u where u: "Uri_joinPath dir n = Inr u"
    and yd: "y = \<lparr>Item_uri = u, Item_name = n, Item_type = Directory\<rparr>"
    by (auto simp: toEntry_def split: sum.splits)
  let ?d = "\<lparr>Item_uri = u, Item_name = n, Item_type = Directory\<rparr>"
  have de: "?d \<in> set entries" using y(1) yd by simp
  have rg: "regExpFilter h options ?d = Inr True" by (simp add: regExpFilter_def)
  have "?d \<in> set es" by (rule filterE_Inr_member[OF f de rg])
  moreover have "extFilter options ?d" "folderFilter options ?d" "fileFilter options ?d"
    using assms(3) by (simp_all add: extFilter_def folderFilter_def fileFilter_def)
  ultimately have "withLabel ?d \<in> set items" unfolding i by simp
  then have "\<lparr>Item_uri = u, Item_name = n, Item_type = Directory, Item_label = n @ ''/''\<rparr> \<in> set items"
    by (simp add: withLabel_def)
  with u show ?thesis by blast
qed

lemma quickPickItems_unfiltered:
  assumes "Options_filterRegExp options = None" and "Options_filterExt options = None"
    and "quickPickItems h dir options children = Inr items"
  shows "map (\<lambda>item. (Item_name item, Item_type item)) items =
         filter (\<lambda>child. (snd child \<noteq> Directory \<or> Options_canSelectFolders options \<or>
                          Options_canChangeFolder options) \<and>
                         (snd child \<noteq> File \<or> Options_canSelectFiles options))
           (pseudoEntries options @ children)"
proof -
  let ?nt = "\<lambda>e. (Item_name e, Item_type e)"
  from assms(3) obtain entries es where
    m: "mapE (toEntry dir) (pseudoEntries options @ children) = Inr entries"
    and f: "filterE (regExpFilter h options) entries = Inr es"
    and i: "items = map withLabel (filter (fileFilter options)
              (filter (folderFilter options) (filter (extFilter options) es)))"
    by (auto simp: quickPickItems_def split: sum.splits)
  have "filterE (regExpFilter h options) entries = Inr entries"
    by (rule filterE_all) (simp add: regExpFilter_def assms(1))
  then have es: "es = entries" using f by simp
  have x: "extFilter options = (\<lambda>e. True)" by (rule ext) (simp add: extFilter_def assms(2))
  have k: "(\<lambda>e. folderFilter options e \<and> fileFilter options e) =
           (\<lambda>child. (snd child \<noteq> Directory \<or> Options_canSelectFolders options \<or>
                          Options_canChangeFolder options) \<and>
                         (snd child \<noteq> File \<or> Options_canSelectFiles options)) \<circ> ?nt"
    by (rule ext) (simp add: folderFilter_def fileFilter_def)
  have "items = map withLabel (filter (\<lambda>e. folderFilter options e \<and> fileFilter options e) entries)"
    unfolding i es x by simp
  then have "map (\<lambda>item. (Item_name item, Item_type item)) items =
      map ?nt (filter (\<lambda>e. folderFilter options e \<and> fileFilter options e) entries)"
    by (simp add: withLabel_def comp_def)
  also have "\<dots> = filter (\<lambda>child. (snd child \<noteq> Directory \<or> Options_canSelectFolders options \<or>
                          Options_canChangeFolder options) \<and>
                         (snd child \<noteq> File \<or> Options_canSelectFiles options)) (map ?nt entries)"
    by (simp only: k filter_map)
  finally show ?thesis by (simp only: mapE_toEntry[OF m])
qed

lemma quickPickList_listing:
  "Uri_joinPath dir0 ''.'' = Inr dir \<Longrightarrow> readDirectory h dir = Some children \<Longrightarrow>
   quickPickItems h dir options children = Inr items \<Longrightarrow>
   quickPickList h dir0 options = Inr (dir, items)"
  by (simp add: quickPickList_def)

lemma quickPickList_read_error:
  "Uri_joinPath d ''.'' = Inr dir \<Longrightarrow> readDirectory h dir = None \<Longrightarrow>
   quickPickList h d options = Inl FileSystemError"
  by (simp add: quickPickList_def)

lemma quickPickList_join_error:
  "Uri_joinPath d ''.'' = Inl e \<Longrightarrow> quickPickList h d options = Inl e"
  by (simp add: quickPickList_def)

lemma pickWithQuick_error:
  "quickPickList h d options = Inl e \<Longrightarrow> pickWithQuick h answers d options = Inl e"
  by (cases answers) simp_all

lemma pickWithQuick_pending:
  "quickPickList h d options = Inr (dir, items) \<Longrightarrow> pickWithQuick h [] d options = Inr Pending"
  by simp

lemma pickWithQuick_answer:
  "quickPickList h d options = Inr (dir, items) \<Longrightarrow>
   pickWithQuick h (answer # answers) d options =
     (case quickPickNext options dir (answer items) of
        Browsing d' \<Rightarrow> pickWithQuick h answers d' options
      | Terminal r \<Rightarrow> Inr (Returned r))"
  by simp

lemma quickPickNext_descend:
  assumes "res = PickedOne item \<or> res = PickedMany [item]"
    and "Item_type item = Directory" and "Options_canChangeFolder options"
    and "Uri_path (Item_uri item) \<noteq> Uri_path dir"
  shows "quickPickNext options dir res = Browsing (Item_uri item)"
  using assms by (auto simp: quickPickNext_def pickedItems_def)

lemma quickPickNext_one:
  assumes "\<not> (Item_type item = Directory \<and> Options_canChangeFolder options \<and>
              Uri_path (Item_uri item) \<noteq> Uri_path dir)"
  shows "quickPickNext options dir (PickedOne item) = Terminal (Some [Item_uri item])"
  using assms by (auto simp: quickPickNext_def pickedItems_def)

lemma quickPickNext_many:
  assumes "\<not> (\<exists>item. xs = [item] \<and> Item_type item = Directory \<and>
              Options_canChangeFolder options \<and> Uri_path (Item_uri item) \<noteq> Uri_path dir)"
  shows "quickPickNext options dir (PickedMany xs) = Terminal (Some (map Item_uri xs))"
proof -
  have "length xs = 1 \<Longrightarrow> xs = [hd xs]" by (cases xs) auto
  with assms show ?thesis by (auto simp: quickPickNext_def pickedItems_def Let_def)
qed

lemma quickPickNext_cancel: "quickPickNext options dir Cancelled = Terminal None"
  by (simp add: quickPickNext_def)

lemma pseudoEntries_change:
  "Options_canChangeFolder options \<Longrightarrow>
   pseudoEntries options =
     [(''..'', Directory)] @ (if Options_canSelectFolders options then [(''.'', Directory)] else [])"
  by (simp add: pseudoEntries_def)

lemma pseudoEntries_explicit:
  "pseudoEntries options =
     (if Options_canChangeFolder options then [(''..'', Directory)] else []) @
     (if Options_canSelectFolders options then [(''.'', Directory)] else [])"
  by (simp add: pseudoEntries_def)

lemma listing_after_descend:
  assumes c: "Options_canChangeFolder options"
    and q: "quickPickItems h dir2 options children2 = Inr items2"
  shows "(\<forall>n. (n, Directory) \<in> set ((''..'', Directory) # children2) \<longrightarrow>
            (\<exists>u. Uri_joinPath dir2 n = Inr u \<and>
                 \<lparr>Item_uri = u, Item_name = n, Item_type = Directory, Item_label = n @ ''/''\<rparr>
                   \<in> set items2)) \<and>
         (\<forall>item2 \<in> set items2.
            (Item_name item2, Item_type item2) \<in>
              set ([(''..'', Directory)] @
                   (if Options_canSelectFolders options then [(''.'', Directory)] else []) @
                   children2) \<and>
            Uri_joinPath dir2 (Item_name item2) = Inr (Item_uri item2)) \<and>
         (Options_filterRegExp options = None \<and> Options_filterExt options = None \<longrightarrow>
            map (\<lambda>item2. (Item_name item2, Item_type item2)) items2 =
              [(''..'', Directory)] @
              (if Options_canSelectFolders options then [(''.'', Directory)] else []) @
              filter (\<lambda>child. snd child \<noteq> File \<or> Options_canSelectFiles options) children2)"
proof (intro conjI allI impI ballI)
  fix n
  assume "(n, Directory) \<in> set ((''..'', Directory) # children2)"
  then have "(n, Directory) \<in> set (pseudoEntries options @ children2)"
    using c by (auto simp: pseudoEntries_change)
  then show "\<exists>u. Uri_joinPath dir2 n = Inr u \<and>
                 \<lparr>Item_uri = u, Item_name = n, Item_type = Directory, Item_label = n @ ''/''\<rparr>
                   \<in> set items2"
    using c by (intro quickPickItems_directory[OF q]) simp_all
next
  fix item2
  assume i: "item2 \<in> set items2"
  from quickPickItems_sound[OF q i]
  show "(Item_name item2, Item_type item2) \<in>
              set ([(''..'', Directory)] @
                   (if Options_canSelectFolders options then [(''.'', Directory)] else []) @
                   children2)"
    by (simp only: pseudoEntries_change[OF c] append_assoc)
  show "Uri_joinPath dir2 (Item_name item2) = Inr (Item_uri item2)"
    using q i by (rule quickPickItems_uri)
next
  assume f: "Options_filterRegExp options = None \<and> Options_filterExt options = None"
  have "map (\<lambda>item2. (Item_name item2, Item_type item2)) items2 =
         filter (\<lambda>child. (snd child \<noteq> Directory \<or> Options_canSelectFolders options \<or>
                          Options_canChangeFolder options) \<and>
                         (snd child \<noteq> File \<or> Options_canSelectFiles options))
           (pseudoEntries options @ children2)"
    using f q by (intro quickPickItems_unfiltered) simp_all
  also have "\<dots> = filter (\<lambda>child. snd child \<noteq> File \<or> Options_canSelectFiles options)
           (pseudoEntries options @ children2)"
    using c by simp
  also have "\<dots> = [(''..'', Directory)] @
              (if Options_canSelectFolders options then [(''.'', Directory)] else []) @
              filter (\<lambda>child. snd child \<noteq> File \<or> Options_canSelectFiles options) children2"
    by (simp add: pseudoEntries_change[OF c])
  finally show "map (\<lambda>item2. (Item_name item2, Item_type item2)) items2 =
              [(''..'', Directory)] @
              (if Options_canSelectFolders options then [(''.'', Directory)] else []) @
              filter (\<lambda>child. snd child \<noteq> File \<or> Options_canSelectFiles options) children2" .
qed

lemma prompt_after_descend:
  assumes r: "\<And>as. pickWithQuick h (answer # as) dir0 options = pickWithQuick h as d options"
    and l: "quickPickList h d options = Inr (dir2, items2)"
  shows "pickWithQuick h [answer] dir0 options = Inr Pending \<and>
         (\<forall>answer2 rest. answer2 items2 = Cancelled \<longrightarrow>
            pickWithQuick h (answer # answer2 # rest) dir0 options = Inr (Returned None)) \<and>
         (\<forall>answer2 rest item2. answer2 items2 = PickedOne item2 \<and> Item_type item2 \<noteq> Directory \<longrightarrow>
            pickWithQuick h (answer # answer2 # rest) dir0 options =
              Inr (Returned (Some [Item_uri item2])))"
proof (intro conjI allI impI)
  show "pickWithQuick h [answer] dir0 options = Inr Pending"
    by (simp only: r pickWithQuick_pending[OF l])
next
  fix answer2 rest
  assume a: "answer2 items2 = Cancelled"
  show "pickWithQuick h (answer # answer2 # rest) dir0 options = Inr (Returned None)"
    by (simp only: r pickWithQuick_answer[OF l] a quickPickNext_cancel NavState.case)
next
  fix answer2 rest item2
  assume a: "answer2 items2 = PickedOne item2 \<and> Item_type item2 \<noteq> Directory"
  then have t: "quickPickNext options dir2 (answer2 items2) = Terminal (Some [Item_uri item2])"
    by (simp add: quickPickNext_one)
  show "pickWithQuick h (answer # answer2 # rest) dir0 options =
              Inr (Returned (Some [Item_uri item2]))"
    by (simp only: r pickWithQuick_answer[OF l] t NavState.case)
qed

lemma descend_listing:
  assumes c: "Options_canChangeFolder options"
    and r: "\<And>as. pickWithQuick h (answer # as) dir0 options = pickWithQuick h as d options"
    and j2: "Uri_joinPath d ''.'' = Inr dir2"
    and rd2: "readDirectory h dir2 = Some children2"
    and q2: "quickPickItems h dir2 options children2 = Inr items2"
  shows "(\<forall>n. (n, Directory) \<in> set ((''..'', Directory) # children2) \<longrightarrow>
                (\<exists>u. Uri_joinPath dir2 n = Inr u \<and>
                     \<lparr>Item_uri = u, Item_name = n, Item_type = Directory, Item_label = n @ ''/''\<rparr>
                       \<in> set items2)) \<and>
             (\<forall>item2 \<in> set items2.
                (Item_name item2, Item_type item2) \<in>
                  set ([(''..'', Directory)] @
                       (if Options_canSelectFolders options then [(''.'', Directory)] else []) @
                       children2) \<and>
                Uri_joinPath dir2 (Item_name item2) = Inr (Item_uri item2)) \<and>
             (Options_filterRegExp options = None \<and> Options_filterExt options = None \<longrightarrow>
                map (\<lambda>item2. (Item_name item2, Item_type item2)) items2 =
                  [(''..'', Directory)] @
                  (if Options_canSelectFolders options then [(''.'', Directory)] else []) @
                  filter (\<lambda>child. snd child \<noteq> File \<or> Options_canSelectFiles options) children2) \<and>
             pickWithQuick h [answer] dir0 options = Inr Pending \<and>
             (\<forall>answer2 rest. answer2 items2 = Cancelled \<longrightarrow>
                pickWithQuick h (answer # answer2 # rest) dir0 options = Inr (Returned None)) \<and>
             (\<forall>answer2 rest item2.
                answer2 items2 = PickedOne item2 \<and> Item_type item2 \<noteq> Directory \<longrightarrow>
                pickWithQuick h (answer # answer2 # rest) dir0 options =
                  Inr (Returned (Some [Item_uri item2])))"
proof -
  have l2: "quickPickList h d options = Inr (dir2, items2)"
    by (rule quickPickList_listing[OF j2 rd2 q2])
  note A = listing_after_descend[OF c q2]
  note B = prompt_after_descend[of h answer dir0 options d dir2 items2, OF r l2]
  show ?thesis
    by (rule conjI[OF A[THEN conjunct1]
          conjI[OF A[THEN conjunct2, THEN conjunct1]
            conjI[OF A[THEN conjunct2, THEN conjunct2] B]]])
qed

text \<open>
  Claim C7. Let \<open>dir\<close> be the directory listed for \<open>dir0\<close> (\<open>dir0\<close> joined with \<^verbatim>\<open>.\<close>),
  \<open>children\<close> what the host read there, and \<open>items\<close> the list shown. The statement has four
  parts.

  \<^item> The answer is one item (alone or as an array of one), of type directory, folder change
    is enabled and the item's path differs from the path of \<open>dir\<close>: the next state is the
    browsing state of the item's location, and the navigation goes on from there. It joins
    that location with \<^verbatim>\<open>.\<close> and reads the directory obtained: an error of either step
    is the error of the navigation; otherwise the new list holds every directory read
    and \<^verbatim>\<open>..\<close>, each at the location joined from its name, holds nothing but the
    pseudo-entries and what was read, and, when no filter is set, is exactly
    \<^verbatim>\<open>..\<close>, then \<^verbatim>\<open>.\<close> if folders can be selected, then what was read (files only if files
    can be selected). The prompt then waits on that list; cancelling it returns undefined, and
    a file picked from it is returned as the one chosen location.
  \<^item> The answer is one item that does not satisfy the condition above: the state is
    terminal and the navigation returns exactly the location of that item.
  \<^item> The answer is an array of items that is not a single item satisfying the condition:
    the state is terminal and the navigation returns the locations of all the items of the
    array, in order.
  \<^item> Every item shown is a pseudo-entry or an entry read, at the location joined from
    \<open>dir\<close> and its name; and when \<open>dir0\<close> is a location, its path differs from that of
    \<open>dir\<close> exactly when its location differs from \<open>dir\<close>.
\<close>

theorem pickWithQuick_transition:
  assumes j: "Uri_joinPath dir0 ''.'' = Inr dir"
    and rd: "readDirectory h dir = Some children"
    and q: "quickPickItems h dir options children = Inr items"
  shows "(\<forall>item. (answer items = PickedOne item \<or> answer items = PickedMany [item]) \<and>
            Item_type item = Directory \<and> Options_canChangeFolder options \<and>
            Uri_path (Item_uri item) \<noteq> Uri_path dir \<longrightarrow>
       quickPickNext options dir (answer items) = Browsing (Item_uri item) \<and>
       pickWithQuick h (answer # answers) dir0 options =
         pickWithQuick h answers (Item_uri item) options \<and>
       (\<forall>e. Uri_joinPath (Item_uri item) ''.'' = Inl e \<longrightarrow>
          pickWithQuick h (answer # answers) dir0 options = Inl e) \<and>
       (\<forall>dir2. Uri_joinPath (Item_uri item) ''.'' = Inr dir2 \<longrightarrow>
          (readDirectory h dir2 = None \<longrightarrow>
             pickWithQuick h (answer # answers) dir0 options = Inl FileSystemError) \<and>
          (\<forall>children2 items2.
             readDirectory h dir2 = Some children2 \<and>
             quickPickItems h dir2 options children2 = Inr items2 \<longrightarrow>
             (\<forall>n. (n, Directory) \<in> set ((''..'', Directory) # children2) \<longrightarrow>
                (\<exists>u. Uri_joinPath dir2 n = Inr u \<and>
                     \<lparr>Item_uri = u, Item_name = n, Item_type = Directory, Item_label = n @ ''/''\<rparr>
                       \<in> set items2)) \<and>
             (\<forall>item2 \<in> set items2.
                (Item_name item2, Item_type item2) \<in>
                  set ([(''..'', Directory)] @
                       (if Options_canSelectFolders options then [(''.'', Directory)] else []) @
                       children2) \<and>
                Uri_joinPath dir2 (Item_name item2) = Inr (Item_uri item2)) \<and>
             (Options_filterRegExp options = None \<and> Options_filterExt options = None \<longrightarrow>
                map (\<lambda>item2. (Item_name item2, Item_type item2)) items2 =
                  [(''..'', Directory)] @
                  (if Options_canSelectFolders options then [(''.'', Directory)] else []) @
                  filter (\<lambda>child. snd child \<noteq> File \<or> Options_canSelectFiles options) children2) \<and>
             pickWithQuick h [answer] dir0 options = Inr Pending \<and>
             (\<forall>answer2 rest. answer2 items2 = Cancelled \<longrightarrow>
                pickWithQuick h (answer # answer2 # rest) dir0 options = Inr (Returned None)) \<and>
             (\<forall>answer2 rest item2.
                answer2 items2 = PickedOne item2 \<and> Item_type item2 \<noteq> Directory \<longrightarrow>
                pickWithQuick h (answer # answer2 # rest) dir0 options =
                  Inr (Returned (Some [Item_uri item2])))))) \<and>
    (\<forall>item. answer items = PickedOne item \<and>
       \<not> (Item_type item = Directory \<and> Options_canChangeFolder options \<and>
            Uri_path (Item_uri item) \<noteq> Uri_path dir) \<longrightarrow>
       quickPickNext options dir (answer items) = Terminal (Some [Item_uri item]) \<and>
       pickWithQuick h (answer # answers) dir0 options = Inr (Returned (Some [Item_uri item]))) \<and>
    (\<forall>xs. answer items = PickedMany xs \<and>
       \<not> (\<exists>item. xs = [item] \<and> Item_type item = Directory \<and> Options_canChangeFolder options \<and>
            Uri_path (Item_uri item) \<noteq> Uri_path dir) \<longrightarrow>
       quickPickNext options dir (answer items) = Terminal (Some (map Item_uri xs)) \<and>
       pickWithQuick h (answer # answers) dir0 options = Inr (Returned (Some (map Item_uri xs)))) \<and>
    (\<forall>shown \<in> set items.
       (Item_name shown, Item_type shown) \<in>
         set ((if Options_canChangeFolder options then [(''..'', Directory)] else []) @
              (if Options_canSelectFolders options then [(''.'', Directory)] else []) @
              children) \<and>
       Uri_joinPath dir (Item_name shown) = Inr (Item_uri shown) \<and>
       (isUri dir0 \<longrightarrow>
          (Item_uri shown \<noteq> dir) = (Uri_path (Item_uri shown) \<noteq> Uri_path dir)))"
proof (intro conjI)
  have l: "quickPickList h dir0 options = Inr (dir, items)"
    by (rule quickPickList_listing[OF j rd q])
  show "\<forall>item. (answer items = PickedOne item \<or> answer items = PickedMany [item]) \<and>
            Item_type item = Directory \<and> Options_canChangeFolder options \<and>
            Uri_path (Item_uri item) \<noteq> Uri_path dir \<longrightarrow>
       quickPickNext options dir (answer items) = Browsing (Item_uri item) \<and>
       pickWithQuick h (answer # answers) dir0 options =
         pickWithQuick h answers (Item_uri item) options \<and>
       (\<forall>e. Uri_joinPath (Item_uri item) ''.'' = Inl e \<longrightarrow>
          pickWithQuick h (answer # answers) dir0 options = Inl e) \<and>
       (\<forall>dir2. Uri_joinPath (Item_uri item) ''.'' = Inr dir2 \<longrightarrow>
          (readDirectory h dir2 = None \<longrightarrow>
             pickWithQuick h (answer # answers) dir0 options = Inl FileSystemError) \<and>
          (\<forall>children2 items2.
             readDirectory h dir2 = Some children2 \<and>
             quickPickItems h dir2 options children2 = Inr items2 \<longrightarrow>
             (\<forall>n. (n, Directory) \<in> set ((''..'', Directory) # children2) \<longrightarrow>
                (\<exists>u. Uri_joinPath dir2 n = Inr u \<and>
                     \<lparr>Item_uri = u, Item_name = n, Item_type = Directory, Item_label = n @ ''/''\<rparr>
                       \<in> set items2)) \<and>
             (\<forall>item2 \<in> set items2.
                (Item_name item2, Item_type item2) \<in>
                  set ([(''..'', Directory)] @
                       (if Options_canSelectFolders options then [(''.'', Directory)] else []) @
                       children2) \<and>
                Uri_joinPath dir2 (Item_name item2) = Inr (Item_uri item2)) \<and>
             (Options_filterRegExp options = None \<and> Options_filterExt options = None \<longrightarrow>
                map (\<lambda>item2. (Item_name item2, Item_type item2)) items2 =
                  [(''..'', Directory)] @
                  (if Options_canSelectFolders options then [(''.'', Directory)] else []) @
                  filter (\<lambda>child. snd child \<noteq> File \<or> Options_canSelectFiles options) children2) \<and>
             pickWithQuick h [answer] dir0 options = Inr Pending \<and>
             (\<forall>answer2 rest. answer2 items2 = Cancelled \<longrightarrow>
                pickWithQuick h (answer # answer2 # rest) dir0 options = Inr (Returned None)) \<and>
             (\<forall>answer2 rest item2.
                answer2 items2 = PickedOne item2 \<and> Item_type item2 \<noteq> Directory \<longrightarrow>
                pickWithQuick h (answer # answer2 # rest) dir0 options =
                  Inr (Returned (Some [Item_uri item2])))))"
  proof (intro allI impI)
    fix item
    assume s: "(answer items = PickedOne item \<or> answer items = PickedMany [item]) \<and>
            Item_type item = Directory \<and> Options_canChangeFolder options \<and>
            Uri_path (Item_uri item) \<noteq> Uri_path dir"
    then have n: "quickPickNext options dir (answer items) = Browsing (Item_uri item)"
      by (intro quickPickNext_descend) simp_all
    have r: "pickWithQuick h (answer # as) dir0 options =
        pickWithQuick h as (Item_uri item) options" for as
      by (simp only: pickWithQuick_answer[OF l] n NavState.case)
    from s have c: "Options_canChangeFolder options" by simp
    show "quickPickNext options dir (answer items) = Browsing (Item_uri item) \<and>
       pickWithQuick h (answer # answers) dir0 options =
         pickWithQuick h answers (Item_uri item) options \<and>
       (\<forall>e. Uri_joinPath (Item_uri item) ''.'' = Inl e \<longrightarrow>
          pickWithQuick h (answer # answers) dir0 options = Inl e) \<and>
       (\<forall>dir2. Uri_joinPath (Item_uri item) ''.'' = Inr dir2 \<longrightarrow>
          (readDirectory h dir2 = None \<longrightarrow>
             pickWithQuick h (answer # answers) dir0 options = Inl FileSystemError) \<and>
          (\<forall>children2 items2.
             readDirectory h dir2 = Some children2 \<and>
             quickPickItems h dir2 options children2 = Inr items2 \<longrightarrow>
             (\<forall>n. (n, Directory) \<in> set ((''..'', Directory) # children2) \<longrightarrow>
                (\<exists>u. Uri_joinPath dir2 n = Inr u \<and>
                     \<lparr>Item_uri = u, Item_name = n, Item_type = Directory, Item_label = n @ ''/''\<rparr>
                       \<in> set items2)) \<and>
             (\<forall>item2 \<in> set items2.
                (Item_name item2, Item_type item2) \<in>
                  set ([(''..'', Directory)] @
                       (if Options_canSelectFolders options then [(''.'', Directory)] else []) @
                       children2) \<and>
                Uri_joinPath dir2 (Item_name item2) = Inr (Item_uri item2)) \<and>
             (Options_filterRegExp options = None \<and> Options_filterExt options = None \<longrightarrow>
                map (\<lambda>item2. (Item_name item2, Item_type item2)) items2 =
                  [(''..'', Directory)] @
                  (if Options_canSelectFolders options then [(''.'', Directory)] else []) @
                  filter (\<lambda>child. snd child \<noteq> File \<or> Options_canSelectFiles options) children2) \<and>
             pickWithQuick h [answer] dir0 options = Inr Pending \<and>
             (\<forall>answer2 rest. answer2 items2 = Cancelled \<longrightarrow>
                pickWithQuick h (answer # answer2 # rest) dir0 options = Inr (Returned None)) \<and>
             (\<forall>answer2 rest item2.
                answer2 items2 = PickedOne item2 \<and> Item_type item2 \<noteq> Directory \<longrightarrow>
                pickWithQuick h (answer # answer2 # rest) dir0 options =
                  Inr (Returned (Some [Item_uri item2])))))"
    proof (intro conjI)
      show "quickPickNext options dir (answer items) = Browsing (Item_uri item)" by (rule n)
      show "pickWithQuick h (answer # answers) dir0 options =
         pickWithQuick h answers (Item_uri item) options" by (rule r)
      show "\<forall>e. Uri_joinPath (Item_uri item) ''.'' = Inl e \<longrightarrow>
          pickWithQuick h (answer # answers) dir0 options = Inl e"
      proof (intro allI impI)
        fix e
        assume "Uri_joinPath (Item_uri item) ''.'' = Inl e"
        then show "pickWithQuick h (answer # answers) dir0 options = Inl e"
          by (simp only: r pickWithQuick_error[OF quickPickList_join_error])
      qed
      show "\<forall>dir2. Uri_joinPath (Item_uri item) ''.'' = Inr dir2 \<longrightarrow>
          (readDirectory h dir2 = None \<longrightarrow>
             pickWithQuick h (answer # answers) dir0 options = Inl FileSystemError) \<and>
          (\<forall>children2 items2.
             readDirectory h dir2 = Some children2 \<and>
             quickPickItems h dir2 options children2 = Inr items2 \<longrightarrow>
             (\<forall>n. (n, Directory) \<in> set ((''..'', Directory) # children2) \<longrightarrow>
                (\<exists>u. Uri_joinPath dir2 n = Inr u \<and>
                     \<lparr>Item_uri = u, Item_name = n, Item_type = Directory, Item_label = n @ ''/''\<rparr>
                       \<in> set items2)) \<and>
             (\<forall>item2 \<in> set items2.
                (Item_name item2, Item_type item2) \<in>
                  set ([(''..'', Directory)] @
                       (if Options_canSelectFolders options then [(''.'', Directory)] else []) @
                       children2) \<and>
                Uri_joinPath dir2 (Item_name item2) = Inr (Item_uri item2)) \<and>
             (Options_filterRegExp options = None \<and> Options_filterExt options = None \<longrightarrow>
                map (\<lambda>item2. (Item_name item2, Item_type item2)) items2 =
                  [(''..'', Directory)] @
                  (if Options_canSelectFolders options then [(''.'', Directory)] else []) @
                  filter (\<lambda>child. snd child \<noteq> File \<or> Options_canSelectFiles options) children2) \<and>
             pickWithQuick h [answer] dir0 options = Inr Pending \<and>
             (\<forall>answer2 rest. answer2 items2 = Cancelled \<longrightarrow>
                pickWithQuick h (answer # answer2 # rest) dir0 options = Inr (Returned None)) \<and>
             (\<forall>answer2 rest item2.
                answer2 items2 = PickedOne item2 \<and> Item_type item2 \<noteq> Directory \<longrightarrow>
                pickWithQuick h (answer # answer2 # rest) dir0 options =
                  Inr (Returned (Some [Item_uri item2]))))"
      proof (intro allI impI)
        fix dir2
        assume j2: "Uri_joinPath (Item_uri item) ''.'' = Inr dir2"
        show "(readDirectory h dir2 = None \<longrightarrow>
             pickWithQuick h (answer # answers) dir0 options = Inl FileSystemError) \<and>
          (\<forall>children2 items2.
             readDirectory h dir2 = Some children2 \<and>
             quickPickItems h dir2 options children2 = Inr items2 \<longrightarrow>
             (\<forall>n. (n, Directory) \<in> set ((''..'', Directory) # children2) \<longrightarrow>
                (\<exists>u. Uri_joinPath dir2 n = Inr u \<and>
                     \<lparr>Item_uri = u, Item_name = n, Item_type = Directory, Item_label = n @ ''/''\<rparr>
                       \<in> set items2)) \<and>
             (\<forall>item2 \<in> set items2.
                (Item_name item2, Item_type item2) \<in>
                  set ([(''..'', Directory)] @
                       (if Options_canSelectFolders options then [(''.'', Directory)] else []) @
                       children2) \<and>
                Uri_joinPath dir2 (Item_name item2) = Inr (Item_uri item2)) \<and>
             (Options_filterRegExp options = None \<and> Options_filterExt options = None \<longrightarrow>
                map (\<lambda>item2. (Item_name item2, Item_type item2)) items2 =
                  [(''..'', Directory)] @
                  (if Options_canSelectFolders options then [(''.'', Directory)] else []) @
                  filter (\<lambda>child. snd child \<noteq> File \<or> Options_canSelectFiles options) children2) \<and>
             pickWithQuick h [answer] dir0 options = Inr Pending \<and>
             (\<forall>answer2 rest. answer2 items2 = Cancelled \<longrightarrow>
                pickWithQuick h (answer # answer2 # rest) dir0 options = Inr (Returned None)) \<and>
             (\<forall>answer2 rest item2.
                answer2 items2 = PickedOne item2 \<and> Item_type item2 \<noteq> Directory \<longrightarrow>
                pickWithQuick h (answer # answer2 # rest) dir0 options =
                  Inr (Returned (Some [Item_uri item2]))))"
        proof (rule conjI)
          show "readDirectory h dir2 = None \<longrightarrow>
             pickWithQuick h (answer # answers) dir0 options = Inl FileSystemError"
          proof
            assume "readDirectory h dir2 = None"
            then show "pickWithQuick h (answer # answers) dir0 options = Inl FileSystemError"
              by (simp only: r pickWithQuick_error[OF quickPickList_read_error[OF j2]])
          qed
          show "\<forall>children2 items2.
             readDirectory h dir2 = Some children2 \<and>
             quickPickItems h dir2 options children2 = Inr items2 \<longrightarrow>
             (\<forall>n. (n, Directory) \<in> set ((''..'', Directory) # children2) \<longrightarrow>
                (\<exists>u. Uri_joinPath dir2 n = Inr u \<and>
                     \<lparr>Item_uri = u, Item_name = n, Item_type = Directory, Item_label = n @ ''/''\<rparr>
                       \<in> set items2)) \<and>
             (\<forall>item2 \<in> set items2.
                (Item_name item2, Item_type item2) \<in>
                  set ([(''..'', Directory)] @
                       (if Options_canSelectFolders options then [(''.'', Directory)] else []) @
                       children2) \<and>
                Uri_joinPath dir2 (Item_name item2) = Inr (Item_uri item2)) \<and>
             (Options_filterRegExp options = None \<and> Options_filterExt options = None \<longrightarrow>
                map (\<lambda>item2. (Item_name item2, Item_type item2)) items2 =
                  [(''..'', Directory)] @
                  (if Options_canSelectFolders options then [(''.'', Directory)] else []) @
                  filter (\<lambda>child. snd child \<noteq> File \<or> Options_canSelectFiles options) children2) \<and>
             pickWithQuick h [answer] dir0 options = Inr Pending \<and>
             (\<forall>answer2 rest. answer2 items2 = Cancelled \<longrightarrow>
                pickWithQuick h (answer # answer2 # rest) dir0 options = Inr (Returned None)) \<and>
             (\<forall>answer2 rest item2.
                answer2 items2 = PickedOne item2 \<and> Item_type item2 \<noteq> Directory \<longrightarrow>
                pickWithQuick h (answer # answer2 # rest) dir0 options =
                  Inr (Returned (Some [Item_uri item2])))"
          proof (intro allI impI)
            fix children2 items2
            assume a: "readDirectory h dir2 = Some children2 \<and>
             quickPickItems h dir2 options children2 = Inr items2"
            then have rd2: "readDirectory h dir2 = Some children2"
              and q2: "quickPickItems h dir2 options children2 = Inr items2"
              by simp_all
            show "(\<forall>n. (n, Directory) \<in> set ((''..'', Directory) # children2) \<longrightarrow>
                (\<exists>u. Uri_joinPath dir2 n = Inr u \<and>
                     \<lparr>Item_uri = u, Item_name = n, Item_type = Directory, Item_label = n @ ''/''\<rparr>
                       \<in> set items2)) \<and>
             (\<forall>item2 \<in> set items2.
                (Item_name item2, Item_type item2) \<in>
                  set ([(''..'', Directory)] @
                       (if Options_canSelectFolders options then [(''.'', Directory)] else []) @
                       children2) \<and>
                Uri_joinPath dir2 (Item_name item2) = Inr (Item_uri item2)) \<and>
             (Options_filterRegExp options = None \<and> Options_filterExt options = None \<longrightarrow>
                map (\<lambda>item2. (Item_name item2, Item_type item2)) items2 =
                  [(''..'', Directory)] @
                  (if Options_canSelectFolders options then [(''.'', Directory)] else []) @
                  filter (\<lambda>child. snd child \<noteq> File \<or> Options_canSelectFiles options) children2) \<and>
             pickWithQuick h [answer] dir0 options = Inr Pending \<and>
             (\<forall>answer2 rest. answer2 items2 = Cancelled \<longrightarrow>
                pickWithQuick h (answer # answer2 # rest) dir0 options = Inr (Returned None)) \<and>
             (\<forall>answer2 rest item2.
                answer2 items2 = PickedOne item2 \<and> Item_type item2 \<noteq> Directory \<longrightarrow>
                pickWithQuick h (answer # answer2 # rest) dir0 options =
                  Inr (Returned (Some [Item_uri item2])))"
              by (rule descend_listing[OF c r j2 rd2 q2])
          qed
        qed
      qed
    qed
  qed
  show "\<forall>item. answer items = PickedOne item \<and>
       \<not> (Item_type item = Directory \<and> Options_canChangeFolder options \<and>
            Uri_path (Item_uri item) \<noteq> Uri_path dir) \<longrightarrow>
       quickPickNext options dir (answer items) = Terminal (Some [Item_uri item]) \<and>
       pickWithQuick h (answer # answers) dir0 options = Inr (Returned (Some [Item_uri item]))"
  proof (intro allI impI)
    fix item
    assume a: "answer items = PickedOne item \<and>
       \<not> (Item_type item = Directory \<and> Options_canChangeFolder options \<and>
            Uri_path (Item_uri item) \<noteq> Uri_path dir)"
    then have t: "quickPickNext options dir (answer items) = Terminal (Some [Item_uri item])"
      by (simp add: quickPickNext_one)
    have "pickWithQuick h (answer # answers) dir0 options = Inr (Returned (Some [Item_uri item]))"
      by (simp only: pickWithQuick_answer[OF l] t NavState.case)
    with t show "quickPickNext options dir (answer items) = Terminal (Some [Item_uri item]) \<and>
       pickWithQuick h (answer # answers) dir0 options = Inr (Returned (Some [Item_uri item]))" by (rule conjI)
  qed
  show "\<forall>xs. answer items = PickedMany xs \<and>
       \<not> (\<exists>item. xs = [item] \<and> Item_type item = Directory \<and> Options_canChangeFolder options \<and>
            Uri_path (Item_uri item) \<noteq> Uri_path dir) \<longrightarrow>
       quickPickNext options dir (answer items) = Terminal (Some (map Item_uri xs)) \<and>
       pickWithQuick h (answer # answers) dir0 options = Inr (Returned (Some (map Item_uri xs)))"
  proof (intro allI impI)
    fix xs
    assume a: "answer items = PickedMany xs \<and>
       \<not> (\<exists>item. xs = [item] \<and> Item_type item = Directory \<and> Options_canChangeFolder options \<and>
            Uri_path (Item_uri item) \<noteq> Uri_path dir)"
    then have t: "quickPickNext options dir (answer items) = Terminal (Some (map Item_uri xs))"
      by (simp add: quickPickNext_many)
    have "pickWithQuick h (answer # answers) dir0 options =
        Inr (Returned (Some (map Item_uri xs)))"
      by (simp only: pickWithQuick_answer[OF l] t NavState.case)
    with t show "quickPickNext options dir (answer items) = Terminal (Some (map Item_uri xs)) \<and>
       pickWithQuick h (answer # answers) dir0 options = Inr (Returned (Some (map Item_uri xs)))" by (rule conjI)
  qed
  show "\<forall>shown \<in> set items.
       (Item_name shown, Item_type shown) \<in>
         set ((if Options_canChangeFolder options then [(''..'', Directory)] else []) @
              (if Options_canSelectFolders options then [(''.'', Directory)] else []) @
              children) \<and>
       Uri_joinPath dir (Item_name shown) = Inr (Item_uri shown) \<and>
       (isUri dir0 \<longrightarrow>
          (Item_uri shown \<noteq> dir) = (Uri_path (Item_uri shown) \<noteq> Uri_path dir))"
  proof (intro ballI conjI impI)
    fix shown
    assume i: "shown \<in> set items"
    from quickPickItems_sound[OF q i]
    show "(Item_name shown, Item_type shown) \<in>
         set ((if Options_canChangeFolder options then [(''..'', Directory)] else []) @
              (if Options_canSelectFolders options then [(''.'', Directory)] else []) @
              children)"
      by (simp only: pseudoEntries_explicit append_assoc)
    show "Uri_joinPath dir (Item_name shown) = Inr (Item_uri shown)"
      using q i by (rule quickPickItems_uri)
    assume "isUri dir0"
    then show "(Item_uri shown \<noteq> dir) = (Uri_path (Item_uri shown) \<noteq> Uri_path dir)"
      using l i by (rule listed_uri_differs_by_path)
  qed
qed

theorem pickWithQuick_transition_witness:
  "pickWithQuick exampleHost [pickNamed ''sub''] (fileUri ''/a'') browseOptions = Inr Pending \<and>
   pickWithQuick exampleHost [pickNamed ''sub'', pickNamed ''z.env''] (fileUri ''/a'') browseOptions =
     Inr (Returned (Some [fileUri ''/a/sub/z.env''])) \<and>
   pickWithQuick exampleHost [pickNamed ''..''] (fileUri ''/a'') browseOptions =
     Inl FileSystemError \<and>
   pickWithQuick exampleHost [\<lambda>items. PickedMany (filter (\<lambda>item. Item_type item = File) items)]
     (fileUri ''/a'') browseOptions =
     Inr (Returned (Some [fileUri ''/a/x.env'', fileUri ''/a/y.txt'']))"
proof -
  let ?children = "[(''x.env'', File), (''y.txt'', File), (''sub'', Directory)]"
  let ?up = "entryItem ''/'' ''..'' Directory"
  let ?sub = "entryItem ''/a/sub'' ''sub'' Directory"
  let ?x = "entryItem ''/a/x.env'' ''x.env'' File"
  let ?y = "entryItem ''/a/y.txt'' ''y.txt'' File"
  let ?z = "entryItem ''/a/sub/z.env'' ''z.env'' File"
  let ?items = "[?up, entryItem ''/a'' ''.'' Directory, ?x, ?y, ?sub]"
  let ?items2 = "[entryItem ''/a'' ''..'' Directory, entryItem ''/a/sub'' ''.'' Directory, ?z]"
  let ?files = "\<lambda>items. PickedMany (filter (\<lambda>item. Item_type item = File) items)"
  have j: "Uri_joinPath (fileUri ''/a'') ''.'' = Inr (fileUri ''/a'')" by code_simp
  have rd: "readDirectory exampleHost (fileUri ''/a'') = Some ?children" by code_simp
  have q: "quickPickItems exampleHost (fileUri ''/a'') browseOptions ?children = Inr ?items"
    by code_simp
  note T = pickWithQuick_transition [OF j rd q]
  \<comment> \<open>the directory \<open>sub\<close> is picked: its listing is shown and the prompt waits\<close>
  have s1: "(pickNamed ''sub'' ?items = PickedOne ?sub \<or> pickNamed ''sub'' ?items = PickedMany [?sub]) \<and>
      Item_type ?sub = Directory \<and> Options_canChangeFolder browseOptions \<and>
      Uri_path (Item_uri ?sub) \<noteq> Uri_path (fileUri ''/a'')"
    by code_simp
  have j2: "Uri_joinPath (Item_uri ?sub) ''.'' = Inr (fileUri ''/a/sub'')" by code_simp
  have h2: "readDirectory exampleHost (fileUri ''/a/sub'') = Some [(''z.env'', File)] \<and>
      quickPickItems exampleHost (fileUri ''/a/sub'') browseOptions [(''z.env'', File)] = Inr ?items2"
    by code_simp
  note D = T [where answer = "pickNamed ''sub''" and answers = "[]", THEN conjunct1, rule_format,
      OF s1, THEN conjunct2, THEN conjunct2, THEN conjunct2, rule_format, OF j2, THEN conjunct2,
      rule_format, OF h2, THEN conjunct2, THEN conjunct2, THEN conjunct2]
  have p: "pickWithQuick exampleHost [pickNamed ''sub''] (fileUri ''/a'') browseOptions = Inr Pending"
    by (rule D [THEN conjunct1])
  have a2: "pickNamed ''z.env'' ?items2 = PickedOne ?z \<and> Item_type ?z \<noteq> Directory" by code_simp
  have u: "Item_uri ?z = fileUri ''/a/sub/z.env''" by code_simp
  have f: "pickWithQuick exampleHost [pickNamed ''sub'', pickNamed ''z.env''] (fileUri ''/a'')
      browseOptions = Inr (Returned (Some [fileUri ''/a/sub/z.env'']))"
    using D [THEN conjunct2, THEN conjunct2, rule_format,
        where ?answer2.0 = "pickNamed ''z.env''" and rest = "[]" and ?item2.0 = ?z, OF a2]
    by (simp only: u)
  \<comment> \<open>the parent is picked: it cannot be read on this host\<close>
  have s3: "(pickNamed ''..'' ?items = PickedOne ?up \<or> pickNamed ''..'' ?items = PickedMany [?up]) \<and>
      Item_type ?up = Directory \<and> Options_canChangeFolder browseOptions \<and>
      Uri_path (Item_uri ?up) \<noteq> Uri_path (fileUri ''/a'')"
    by code_simp
  have j3: "Uri_joinPath (Item_uri ?up) ''.'' = Inr (fileUri ''/'')" by code_simp
  have n3: "readDirectory exampleHost (fileUri ''/'') = None" by code_simp
  have e: "pickWithQuick exampleHost [pickNamed ''..''] (fileUri ''/a'') browseOptions =
      Inl FileSystemError"
    by (rule T [where answer = "pickNamed ''..''" and answers = "[]", THEN conjunct1, rule_format,
      OF s3, THEN conjunct2, THEN conjunct2, THEN conjunct2, rule_format, OF j3, THEN conjunct1,
      rule_format, OF n3])
  \<comment> \<open>the two files are picked together\<close>
  have s4: "?files ?items = PickedMany [?x, ?y] \<and>
      \<not> (\<exists>item. [?x, ?y] = [item] \<and> Item_type item = Directory \<and>
            Options_canChangeFolder browseOptions \<and>
            Uri_path (Item_uri item) \<noteq> Uri_path (fileUri ''/a''))"
  proof
    show "?files ?items = PickedMany [?x, ?y]" by code_simp
    show "\<not> (\<exists>item. [?x, ?y] = [item] \<and> Item_type item = Directory \<and>
            Options_canChangeFolder browseOptions \<and>
            Uri_path (Item_uri item) \<noteq> Uri_path (fileUri ''/a''))" by simp
  qed
  have m: "map Item_uri [?x, ?y] = [fileUri ''/a/x.env'', fileUri ''/a/y.txt'']" by code_simp
  have t: "pickWithQuick exampleHost [?files] (fileUri ''/a'') browseOptions =
      Inr (Returned (Some [fileUri ''/a/x.env'', fileUri ''/a/y.txt'']))"
    using T [where answer = ?files and answers = "[]", THEN conjunct2, THEN conjunct2,
      THEN conjunct1, rule_format, OF s4, THEN conjunct2]
    by (simp only: m)
  from p f e t show ?thesis by (intro conjI)
qed


text \<open>
  Claim C10. In every browsing state entered from a location \<open>dir0\<close>, the current
  directory \<open>dir\<close> is \<open>dir0\<close> joined with \<^verbatim>\<open>.\<close>, and joining \<open>dir\<close> with \<^verbatim>\<open>.\<close> again gives
  \<open>dir\<close> itself. So the pseudo-entry \<^verbatim>\<open>.\<close>, which is in the list when folders can be
  selected, has the location \<open>dir\<close>; selecting it alone (as the one item, or as an array
  of one item) leads to the terminal state with exactly \<open>dir\<close>, whatever the option for
  folder change is, and the navigation returns \<open>dir\<close> without listing again.
\<close>

theorem dot_entry_is_current_directory:
  assumes "isUri dir0" and "quickPickList h dir0 options = Inr (dir, items)"
  shows "Uri_joinPath dir ''.'' = Inr dir \<and>
    (Options_canSelectFolders options \<longrightarrow>
       \<lparr>Item_uri = dir, Item_name = ''.'', Item_type = Directory, Item_label = ''./''\<rparr> \<in> set items) \<and>
    (\<forall>item \<in> set items. Item_name item = ''.'' \<longrightarrow>
       Item_uri item = dir \<and>
       quickPickNext options dir (PickedOne item) = Terminal (Some [dir]) \<and>
       quickPickNext options dir (PickedMany [item]) = Terminal (Some [dir]) \<and>
       (\<forall>answer answers. answer items = PickedOne item \<or> answer items = PickedMany [item] \<longrightarrow>
          pickWithQuick h (answer # answers) dir0 options = Inr (Returned (Some [dir]))))"
proof -
  from assms(2) obtain children where
    j: "Uri_joinPath dir0 ''.'' = Inr dir"
    and q: "quickPickItems h dir options children = Inr items"
    by (auto simp: quickPickList_def split: sum.splits option.splits)
  have fx: "Uri_joinPath dir ''.'' = Inr dir" using assms(1) j by (rule Uri_joinPath_dot_fixed)
  have dot: "Options_canSelectFolders options \<Longrightarrow>
       \<lparr>Item_uri = dir, Item_name = ''.'', Item_type = Directory, Item_label = ''./''\<rparr> \<in> set items"
    by (rule quickPickItems_dot[OF q _ fx])
  have sel: "Item_uri item = dir \<and>
       quickPickNext options dir (PickedOne item) = Terminal (Some [dir]) \<and>
       quickPickNext options dir (PickedMany [item]) = Terminal (Some [dir]) \<and>
       (\<forall>answer answers. answer items = PickedOne item \<or> answer items = PickedMany [item] \<longrightarrow>
          pickWithQuick h (answer # answers) dir0 options = Inr (Returned (Some [dir])))"
    if "item \<in> set items" "Item_name item = ''.''" for item
  proof -
    from quickPickItems_uri[OF q that(1)] that(2) fx have u: "Item_uri item = dir" by simp
    then have n1: "quickPickNext options dir (PickedOne item) = Terminal (Some [dir])"
      and n2: "quickPickNext options dir (PickedMany [item]) = Terminal (Some [dir])"
      by (simp_all add: quickPickNext_def pickedItems_def)
    have "pickWithQuick h (answer # answers) dir0 options = Inr (Returned (Some [dir]))"
      if "answer items = PickedOne item \<or> answer items = PickedMany [item]" for answer answers
      using that by (elim disjE) (simp_all add: assms(2) n1 n2)
    then show ?thesis using u n1 n2 by blast
  qed
  show ?thesis using fx dot sel by blast
qed

theorem dot_entry_is_current_directory_witness:
  "isUri (fileUri ''/a/'') \<and>
   quickPickList exampleHost (fileUri ''/a/'') browseOptions =
     Inr (fileUri ''/a'',
          [entryItem ''/'' ''..'' Directory, entryItem ''/a'' ''.'' Directory,
           entryItem ''/a/x.env'' ''x.env'' File, entryItem ''/a/y.txt'' ''y.txt'' File,
           entryItem ''/a/sub'' ''sub'' Directory]) \<and>
   quickPickNext browseOptions (fileUri ''/a'') (PickedOne (entryItem ''/a'' ''.'' Directory)) =
     Terminal (Some [fileUri ''/a'']) \<and>
   pickWithQuick exampleHost [\<lambda>items. PickedMany [entryItem ''/a'' ''.'' Directory]]
     (fileUri ''/a/'') browseOptions = Inr (Returned (Some [fileUri ''/a'']))"
proof -
  let ?dot = "entryItem ''/a'' ''.'' Directory"
  let ?items = "[entryItem ''/'' ''..'' Directory, ?dot,
     entryItem ''/a/x.env'' ''x.env'' File, entryItem ''/a/y.txt'' ''y.txt'' File,
     entryItem ''/a/sub'' ''sub'' Directory]"
  have h1: "isUri (fileUri ''/a/'')" by code_simp
  have h2: "quickPickList exampleHost (fileUri ''/a/'') browseOptions = Inr (fileUri ''/a'', ?items)"
    by code_simp
  have m: "?dot \<in> set ?items" by simp
  have n: "Item_name ?dot = ''.''" by (simp add: entryItem_def)
  from dot_entry_is_current_directory [OF h1 h2] m n
  have t: "quickPickNext browseOptions (fileUri ''/a'') (PickedOne ?dot) = Terminal (Some [fileUri ''/a''])"
    and a: "\<forall>answer answers. answer ?items = PickedOne ?dot \<or> answer ?items = PickedMany [?dot] \<longrightarrow>
          pickWithQuick exampleHost (answer # answers) (fileUri ''/a/'') browseOptions =
            Inr (Returned (Some [fileUri ''/a'']))"
    by blast+
  from a [rule_format, of "\<lambda>items. PickedMany [?dot]" "[]"]
  have "pickWithQuick exampleHost [\<lambda>items. PickedMany [?dot]] (fileUri ''/a/'') browseOptions =
        Inr (Returned (Some [fileUri ''/a'']))" by simp
  with h1 h2 t show ?thesis by blast
qed

section \<open>Properties of the output formatter and of the pick operation\<close>







end
